theory Spec2Isabelle
  imports Main "HOL-Library.Word"
begin

unbundle bit_operations_syntax

section \<open>The handoff codec (WindowEmperor.cpp, lines 57--142)\<close>

text \<open>
  Bytes are \<open>uint8_t\<close>, characters are \<open>wchar_t\<close> (16 bits on Windows), lengths are
  \<open>uint32_t\<close>. \<open>size_t\<close> is the 64-bit type of the x64 and ARM64 builds. A buffer given
  by the pointer pair \<open>(beg, end)\<close> is the list of its bytes; an iterator \<open>it\<close> into it is
  the offset \<open>it - beg\<close>, so \<open>end - it\<close> is \<open>length buf - it\<close>.
\<close>

type_synonym byte = "8 word"
type_synonym wchar = "16 word"
type_synonym u32 = "32 word"
type_synonym u64 = "64 word"
type_synonym size_t = "64 word"
type_synonym wstring = "wchar list"

text \<open>
  The exceptions of the codec: \<open>std::out_of_range\<close> thrown by the two decoders,
  \<open>gsl::narrowing_error\<close> thrown by \<open>gsl::narrow\<close>. \<open>access_violation\<close> is not a C++
  exception: it marks a load from an address outside the buffer (undefined behaviour in
  the source), so that a decoder that would read past \<open>end\<close> is visible in its result.
\<close>

datatype exn = out_of_range | narrowing_error | access_violation

definition sizeof_uint32_t :: nat where
  "sizeof_uint32_t = 4"

definition sizeof_wchar_t :: size_t where
  "sizeof_wchar_t = 2"

text \<open>
  The object representation of a \<open>uint32_t\<close> and of a \<open>wchar_t\<close> that
  \<open>reinterpret_cast\<close> exposes: little endian, as on every Windows target.
\<close>

definition bytes_of_uint32 :: "u32 \<Rightarrow> byte list" where
  "bytes_of_uint32 v =
     [ucast v, ucast (drop_bit 8 v), ucast (drop_bit 16 v), ucast (drop_bit 24 v)]"

definition uint32_of_bytes :: "byte list \<Rightarrow> u32" where
  "uint32_of_bytes bs =
     ucast (bs ! 0) OR push_bit 8 (ucast (bs ! 1)) OR
     push_bit 16 (ucast (bs ! 2)) OR push_bit 24 (ucast (bs ! 3))"

definition bytes_of_wchar :: "wchar \<Rightarrow> byte list" where
  "bytes_of_wchar c = [ucast c, ucast (drop_bit 8 c)]"

fun wchars_of_bytes :: "byte list \<Rightarrow> wstring" where
  "wchars_of_bytes (b0 # b1 # bs) = (ucast b0 OR push_bit 8 (ucast b1)) # wchars_of_bytes bs"
| "wchars_of_bytes _ = []"

text \<open>
  A load of \<open>n\<close> bytes at offset \<open>it\<close>. It touches the offsets \<open>it, \<dots>, it + n - 1\<close>;
  it is \<open>None\<close> as soon as one of them is at or past the end of the buffer.
\<close>

definition load_bytes :: "byte list \<Rightarrow> nat \<Rightarrow> nat \<Rightarrow> byte list option" where
  "load_bytes buf it n =
     (if n = 0 then Some []
      else if it + n \<le> length buf then Some (take n (drop it buf))
      else None)"

text \<open>\<open>gsl::narrow<uint32_t>\<close> of a \<open>size_t\<close>: throws when the value does not survive the cast.\<close>

definition narrow_uint32 :: "nat \<Rightarrow> exn + u32" where
  "narrow_uint32 n =
     (if unat (word_of_nat n :: u32) = n then Inr (word_of_nat n) else Inl narrowing_error)"

definition serializeUint32 :: "byte list \<Rightarrow> u32 \<Rightarrow> byte list" where
  "serializeUint32 out v = out @ bytes_of_uint32 v"

text \<open>The decoders return the value read and the advanced iterator.\<close>

definition deserializeUint32 :: "byte list \<Rightarrow> nat \<Rightarrow> exn + (u32 \<times> nat)" where
  "deserializeUint32 buf it =
     (if length buf - it < sizeof_uint32_t then Inl out_of_range
      else case load_bytes buf it sizeof_uint32_t of
             None \<Rightarrow> Inl access_violation
           | Some bs \<Rightarrow> Inr (uint32_of_bytes bs, it + sizeof_uint32_t))"

text \<open>
  \<open>len * sizeof(wchar_t)\<close> is computed in \<open>size_t\<close>: the 32-bit length is widened
  first, then multiplied with wrap-around at 64 bits.
\<close>

definition serializeString :: "byte list \<Rightarrow> wstring \<Rightarrow> exn + byte list" where
  "serializeString out str =
     (case narrow_uint32 (length str) of
        Inl e \<Rightarrow> Inl e
      | Inr len \<Rightarrow>
          Inr (serializeUint32 out len @
               take (unat (ucast len * sizeof_wchar_t)) (concat (map bytes_of_wchar str))))"

definition deserializeString :: "byte list \<Rightarrow> nat \<Rightarrow> exn + (wstring \<times> nat)" where
  "deserializeString buf it0 =
     (case deserializeUint32 buf it0 of
        Inl e \<Rightarrow> Inl e
      | Inr (len, it) \<Rightarrow>
          if length buf - it < unat (ucast len * sizeof_wchar_t) then Inl out_of_range
          else case load_bytes buf it (unat (ucast len * sizeof_wchar_t)) of
                 None \<Rightarrow> Inl access_violation
               | Some bs \<Rightarrow>
                   Inr (take (unat len) (wchars_of_bytes bs), it + unat (ucast len * sizeof_wchar_t)))"

text \<open>\<open>struct Handoff\<close>; its field \<open>show\<close> is \<open>showCmd\<close> here.\<close>

record Handoff =
  args :: wstring
  env :: wstring
  cwd :: wstring
  showCmd :: u32

text \<open>
  A \<open>const wchar_t*\<close> is modelled by the characters in memory from the pointer on.
  \<open>wcsnlen(p, SIZE_T_MAX)\<close> counts the characters before the first NUL, and the
  conversion of a \<open>wchar_t*\<close> to \<open>std::wstring_view\<close> keeps exactly these. Either one
  runs off the memory given when there is no NUL in it (\<open>None\<close>).
\<close>

definition wcsnlen :: "wstring \<Rightarrow> nat option" where
  "wcsnlen p = (if 0 \<in> set p then Some (length (takeWhile (\<lambda>c. c \<noteq> 0) p)) else None)"

definition wstring_view_of :: "wstring \<Rightarrow> wstring option" where
  "wstring_view_of p = (if 0 \<in> set p then Some (takeWhile (\<lambda>c. c \<noteq> 0) p) else None)"

text \<open>
  \<open>stringFromDoubleNullTerminated\<close>: the loop moves \<open>end\<close> from string to string until it
  points at a NUL; \<open>scanDoubleNull\<close> is that loop on the offset \<open>end - beg\<close>, and the view
  returned is \<open>{beg, end}\<close>. It keeps the NUL that ends each string and leaves out the
  final one.
\<close>

function scanDoubleNull :: "wstring \<Rightarrow> nat \<Rightarrow> nat option" where
  "scanDoubleNull beg e =
     (if length beg \<le> e then None
      else if beg ! e = 0 then Some e
      else case wcsnlen (drop e beg) of
             None \<Rightarrow> None
           | Some n \<Rightarrow> scanDoubleNull beg (e + n + 1))"
  by pat_completeness auto
termination
  by (relation "measure (\<lambda>(beg, e). length beg - e)") auto

declare scanDoubleNull.simps [simp del]

definition stringFromDoubleNullTerminated :: "wstring \<Rightarrow> wstring option" where
  "stringFromDoubleNullTerminated beg =
     (case scanDoubleNull beg 0 of None \<Rightarrow> None | Some e \<Rightarrow> Some (take e beg))"

text \<open>
  \<open>serializeHandoffPayload\<close>. The parameters are what the three system calls hand to
  it: the memory at \<open>GetCommandLineW()\<close>, the memory at \<open>GetEnvironmentStringsW()\<close> and
  the \<open>std::wstring\<close> of the current directory. The command line is cut at its first NUL
  when it becomes a view, the environment block goes through
  \<open>stringFromDoubleNullTerminated\<close>. \<open>nCmdShow\<close> is a C \<open>int\<close>, and
  \<open>static_cast<uint32_t>\<close> keeps its low 32 bits.
\<close>

definition serializeHandoffPayload :: "wstring \<Rightarrow> wstring \<Rightarrow> wstring \<Rightarrow> int \<Rightarrow> exn + byte list" where
  "serializeHandoffPayload commandLine envMem curDir nCmdShow =
     (case wstring_view_of commandLine of None \<Rightarrow> Inl access_violation | Some args_view \<Rightarrow>
      case stringFromDoubleNullTerminated envMem of None \<Rightarrow> Inl access_violation | Some env_view \<Rightarrow>
      case serializeString [] args_view of Inl e \<Rightarrow> Inl e | Inr out1 \<Rightarrow>
      case serializeString out1 env_view of Inl e \<Rightarrow> Inl e | Inr out2 \<Rightarrow>
      case serializeString out2 curDir of Inl e \<Rightarrow> Inl e | Inr out3 \<Rightarrow>
      Inr (serializeUint32 out3 (word_of_int nCmdShow)))"

definition deserializeHandoffPayload :: "byte list \<Rightarrow> exn + Handoff" where
  "deserializeHandoffPayload buf =
     (case deserializeString buf 0 of Inl e \<Rightarrow> Inl e | Inr (a, it1) \<Rightarrow>
      case deserializeString buf it1 of Inl e \<Rightarrow> Inl e | Inr (e, it2) \<Rightarrow>
      case deserializeString buf it2 of Inl e \<Rightarrow> Inl e | Inr (c, it3) \<Rightarrow>
      case deserializeUint32 buf it3 of Inl e \<Rightarrow> Inl e | Inr (s, it4) \<Rightarrow>
      Inr \<lparr>args = a, env = e, cwd = c, showCmd = s\<rparr>)"

text \<open>A payload is valid when each string length fits the 32-bit length prefix.\<close>

definition valid_payload :: "Handoff \<Rightarrow> bool" where
  "valid_payload p =
     (length (args p) < 2 ^ 32 \<and> length (env p) < 2 ^ 32 \<and> length (cwd p) < 2 ^ 32)"


section \<open>Acquiring the mutex or handing off (WindowEmperor.cpp, lines 144--182)\<close>

text \<open>
  What the operating system answers in one pass of the retry loop: whether
  \<open>CreateMutexW\<close> gave a fresh mutex (a handle, and not \<open>ERROR_ALREADY_EXISTS\<close>), whether
  \<open>FindWindowW\<close> found the message window, whether \<open>SendMessageTimeoutW\<close> returned
  non-zero. The world is a function from the pass number to these answers.
\<close>

record attempt =
  mutexAcquired :: bool
  windowFound :: bool
  sendSucceeded :: bool

text \<open>
  The calls the loop makes, in order. \<open>SendMessageTimeoutW\<close> carries \<open>cbData\<close> and
  the timeout in milliseconds, \<open>Sleep\<close> its duration in milliseconds.
\<close>

datatype handoff_call =
    CreateMutexW
  | FindWindowW
  | SendMessageTimeoutW u32 u32
  | Sleep u32

text \<open>
  The \<open>for\<close> loop over the \<open>DWORD sleep\<close>. The result is \<open>Inr True\<close> for an owned
  mutex, \<open>Inr False\<close> for the empty \<open>unique_mutex\<close>, \<open>Inl\<close> for an exception
  leaving the function. The loop has no bound of its own, so it is a partial function:
  \<open>None\<close> is a run that never returns.
\<close>

partial_function (option) retryLoop ::
  "(nat \<Rightarrow> attempt) \<Rightarrow> exn + byte list \<Rightarrow> nat \<Rightarrow> u32 \<Rightarrow> handoff_call list \<Rightarrow>
     ((exn + bool) \<times> handoff_call list) option" where
  "retryLoop world payload k sleep tr =
     (if sleep < 10000 then
        (if mutexAcquired (world k) then Some (Inr True, tr @ [CreateMutexW])
         else if windowFound (world k) then
           (case payload of
              Inl e \<Rightarrow> Some (Inl e, tr @ [CreateMutexW, FindWindowW])
            | Inr bytes \<Rightarrow>
                (case narrow_uint32 (length bytes) of
                   Inl e \<Rightarrow> Some (Inl e, tr @ [CreateMutexW, FindWindowW])
                 | Inr cbData \<Rightarrow>
                     if sendSucceeded (world k)
                     then Some (Inr False,
                            tr @ [CreateMutexW, FindWindowW, SendMessageTimeoutW cbData 10000])
                     else retryLoop world payload (Suc k) (sleep + sleep div 2)
                            (tr @ [CreateMutexW, FindWindowW, SendMessageTimeoutW cbData 10000,
                                   Sleep sleep])))
         else retryLoop world payload (Suc k) (sleep + sleep div 2)
                (tr @ [CreateMutexW, FindWindowW, Sleep sleep]))
      else Some (Inr False, tr))"

declare retryLoop.simps [code]

definition acquireMutexOrAttemptHandoff ::
  "(nat \<Rightarrow> attempt) \<Rightarrow> exn + byte list \<Rightarrow> ((exn + bool) \<times> handoff_call list) option" where
  "acquireMutexOrAttemptHandoff world payload = retryLoop world payload 0 50 []"

text \<open>Reading a trace: the sleep durations and the send timeouts, in order.\<close>

fun sleeps :: "handoff_call list \<Rightarrow> u32 list" where
  "sleeps [] = []"
| "sleeps (Sleep d # cs) = d # sleeps cs"
| "sleeps (_ # cs) = sleeps cs"

fun send_timeouts :: "handoff_call list \<Rightarrow> u32 list" where
  "send_timeouts [] = []"
| "send_timeouts (SendMessageTimeoutW _ t # cs) = t # send_timeouts cs"
| "send_timeouts (_ # cs) = send_timeouts cs"

text \<open>
  The durations the loop header produces from 50, and the property that makes a list
  such a run: every entry is below the cap, the next one is \<open>sleep + sleep / 2\<close>, and the
  value after the last entry is no longer below the cap.
\<close>

definition backoff_schedule :: "u32 list" where
  "backoff_schedule =
     [50, 75, 112, 168, 252, 378, 567, 850, 1275, 1912, 2868, 4302, 6453, 9679]"

fun backoff_chain :: "u32 \<Rightarrow> u32 list \<Rightarrow> bool" where
  "backoff_chain s [] = (\<not> s < 10000)"
| "backoff_chain s (t # ts) = (s < 10000 \<and> t = s \<and> backoff_chain (s + s div 2) ts)"


section \<open>The emperor's state\<close>

text \<open>\<open>WindowRequestedArgs\<close> as built from a \<open>CommandlineArgs\<close> (Remoting.h).\<close>

record WindowRequestedArgs =
  Commandline :: "wstring list"
  CurrentDirectory :: wstring
  ShowWindowCommand :: u32
  CurrentEnvironment :: wstring

text \<open>What the emperor reads of a \<open>WindowThread\<close>: its peasant id and its logic's quake flag.\<close>

record WindowThread =
  PeasantID :: u64
  IsQuakeWindow :: bool

record KeyChord =
  Modifiers :: u32
  Vkey :: u32

record GlobalSummonArgs =
  Name :: wstring
  ToggleVisibility :: bool
  DropdownDuration :: u32

text \<open>
  A command of the global hotkey map; \<open>SummonArgs\<close> is the result of
  \<open>cmd.ActionAndArgs().Args().try_as<GlobalSummonArgs>()\<close>.
\<close>

record Command =
  CommandName :: wstring
  SummonArgs :: "GlobalSummonArgs option"

text \<open>The settings the emperor asks \<open>_app.Logic()\<close> for.\<close>

record AppLogic =
  AllowHeadless :: bool
  RequestsTrayIcon :: bool
  GlobalHotkeys :: "(KeyChord \<times> Command) list"

datatype notify_message = NIM_ADD | NIM_SETVERSION | NIM_DELETE

text \<open>
  The calls that leave the emperor: the quit message posted by \<open>_close\<close>, a refrigerated
  window thread being reheated, a new window thread being started, and the hotkey and
  notification icon calls of the operating system.
\<close>

datatype os_call =
    PostQuitMessage
  | Microwave WindowThread WindowRequestedArgs
  | ThreadStart WindowRequestedArgs
  | UnregisterHotKey int
  | RegisterHotKey int KeyChord
  | Shell_NotifyIconW notify_message

text \<open>
  The members of \<open>class WindowEmperor\<close> (WindowEmperor.h) that the functions below
  read or write; \<open>window\<close> tells whether the \<open>_window\<close> handle is set, \<open>calls\<close> is the
  history of the calls made so far.
\<close>

record WindowEmperor =
  window :: bool
  app :: AppLogic
  windows :: "WindowThread list"
  oldWindows :: "WindowThread list"
  windowThreadInstances :: u32
  hotkeys :: "GlobalSummonArgs list"
  notificationIconShown :: bool
  quitting :: bool
  calls :: "os_call list"

definition os :: "os_call \<Rightarrow> WindowEmperor \<Rightarrow> WindowEmperor" where
  "os c st = st\<lparr>calls := calls st @ [c]\<rparr>"


section \<open>Window threads (WindowEmperor.cpp, lines 265--388 and 677--683)\<close>

text \<open>
  \<open>_createNewWindowThread\<close>, seen from the emperor: the back of the fridge is reheated,
  or else a thread is started.
\<close>

definition createNewWindowThread :: "WindowRequestedArgs \<Rightarrow> WindowEmperor \<Rightarrow> WindowEmperor" where
  "createNewWindowThread request st =
     (if oldWindows st \<noteq> []
      then os (Microwave (last (oldWindows st)) request) (st\<lparr>oldWindows := butlast (oldWindows st)\<rparr>)
      else os (ThreadStart request) st)"

definition removeWindow :: "u64 \<Rightarrow> WindowEmperor \<Rightarrow> WindowEmperor" where
  "removeWindow senderID st = st\<lparr>windows := filter (\<lambda>w. PeasantID w \<noteq> senderID) (windows st)\<rparr>"

text \<open>\<open>_close\<close> resumes on the emperor's dispatcher and posts the quit message there.\<close>

definition close :: "WindowEmperor \<Rightarrow> WindowEmperor" where
  "close st = os PostQuitMessage st"

text \<open>\<open>fetch_sub(1)\<close> returns the previous value and wraps at 32 bits.\<close>

definition decrementWindowCount :: "WindowEmperor \<Rightarrow> WindowEmperor" where
  "decrementWindowCount st =
     (let quitWhenLastWindowExits = \<not> AllowHeadless (app st);
          noMoreWindows = (windowThreadInstances st = 1);
          st' = st\<lparr>windowThreadInstances := windowThreadInstances st - 1\<rparr>
      in if noMoreWindows \<and> (quitting st \<or> quitWhenLastWindowExits) then close st' else st')"

text \<open>
  One pass of the \<open>while (window->KeepWarm())\<close> loop of a window thread, as two steps on
  the emperor's state: entering the pass, and what follows \<open>RunMessagePump\<close>.
  \<open>alive\<close> is the answer of \<open>weakThis.lock()\<close>. The two \<open>wil::scope_exit\<close> guards run
  their callback at \<open>reset()\<close>, or else when the scope is left by an exception, the guard
  declared last first. \<open>pump\<close> and \<open>refrigerate\<close> tell whether \<open>RunMessagePump\<close> and
  \<open>Refrigerate\<close> return or throw. The second component is how the pass leaves the loop
  body: on to the next \<open>KeepWarm\<close>, by \<open>break\<close>, or into \<open>CATCH_LOG\<close>.
\<close>

datatype outcome = Returned | Threw

datatype loop_exit = Continue | Break | Caught

definition enterWarm :: "bool \<Rightarrow> WindowThread \<Rightarrow> WindowEmperor \<Rightarrow> WindowEmperor" where
  "enterWarm alive w st = (if alive then st\<lparr>windows := windows st @ [w]\<rparr> else st)"

definition leaveWarm ::
  "bool \<Rightarrow> bool \<Rightarrow> outcome \<Rightarrow> outcome \<Rightarrow> WindowThread \<Rightarrow> WindowEmperor \<Rightarrow>
     WindowEmperor \<times> loop_exit" where
  "leaveWarm alive IsWindows11 pump refrigerate w st =
     (let removeWindow_cb = (\<lambda>s. if alive then removeWindow (PeasantID w) s else s);
          decrementWindowCount_cb = (\<lambda>s. if alive then decrementWindowCount s else s)
      in case pump of
           Threw \<Rightarrow> (removeWindow_cb (decrementWindowCount_cb st), Caught)
         | Returned \<Rightarrow>
             (let st1 = removeWindow_cb st in
              if IsWindows11 then (decrementWindowCount_cb st1, Break)
              else case refrigerate of
                     Threw \<Rightarrow> (decrementWindowCount_cb st1, Caught)
                   | Returned \<Rightarrow>
                       (let st2 = decrementWindowCount_cb st1 in
                        (if alive then st2\<lparr>oldWindows := oldWindows st2 @ [w]\<rparr> else st2,
                         Continue))))"


section \<open>Global hotkeys (WindowEmperor.cpp, lines 770--917)\<close>

text \<open>\<open>gsl::narrow_cast<int>\<close> of a \<open>size_t\<close>: the low 32 bits, read as two's complement.\<close>

definition narrow_cast_int :: "nat \<Rightarrow> int" where
  "narrow_cast_int n = sint (word_of_nat n :: 32 word)"

function unregisterLoop :: "int \<Rightarrow> int \<Rightarrow> WindowEmperor \<Rightarrow> WindowEmperor" where
  "unregisterLoop i count st =
     (if i < count then unregisterLoop (i + 1) count (os (UnregisterHotKey i) st) else st)"
  by pat_completeness auto
termination
  by (relation "measure (\<lambda>(i, count, st). nat (count - i))") auto

declare unregisterLoop.simps [simp del]

text \<open>
  The loop over \<open>GlobalHotkeys()\<close>. \<open>_registerHotKey\<close> passes the index and the chord
  to \<open>RegisterHotKey\<close>; its result is only logged.
\<close>

fun registerLoop :: "(KeyChord \<times> Command) list \<Rightarrow> WindowEmperor \<Rightarrow> WindowEmperor" where
  "registerLoop [] st = st"
| "registerLoop ((keyChord, cmd) # rest) st =
     (case SummonArgs cmd of
        Some summonArgs \<Rightarrow>
          (let index = narrow_cast_int (length (hotkeys st));
               st1 = os (RegisterHotKey index keyChord) st
           in registerLoop rest (st1\<lparr>hotkeys := hotkeys st1 @ [summonArgs]\<rparr>))
      | None \<Rightarrow> registerLoop rest st)"

definition setupGlobalHotkeys :: "WindowEmperor \<Rightarrow> WindowEmperor" where
  "setupGlobalHotkeys st =
     (if \<not> window st then st
      else
        (let st1 = unregisterLoop 0 (narrow_cast_int (length (hotkeys st))) st;
             st2 = st1\<lparr>hotkeys := []\<rparr>
         in registerLoop (GlobalHotkeys (app st2)) st2))"

text \<open>The entries of the hotkey map that carry summon arguments, in order.\<close>

fun summonEntries :: "(KeyChord \<times> Command) list \<Rightarrow> (KeyChord \<times> GlobalSummonArgs) list" where
  "summonEntries [] = []"
| "summonEntries ((keyChord, cmd) # rest) =
     (case SummonArgs cmd of
        Some summonArgs \<Rightarrow> (keyChord, summonArgs) # summonEntries rest
      | None \<Rightarrow> summonEntries rest)"

text \<open>
  \<open>_hotkeyPressed\<close>. \<open>hotkeyIndex\<close> is a \<open>long\<close>; for a value that is not negative
  \<open>static_cast<size_t>\<close> keeps it. Past the guard the handler takes
  \<open>til::at(_hotkeys, hotkeyIndex)\<close>, fills a local \<open>SummonWindowSelectionArgs\<close> and
  returns (the summon call is commented out, and the block after it returns), so the
  emperor is unchanged. The first component is the position of \<open>_hotkeys\<close> that was
  accessed, \<open>None\<close> when the guard returned before the access.
\<close>

definition hotkeyPressed :: "int \<Rightarrow> WindowEmperor \<Rightarrow> nat option \<times> WindowEmperor" where
  "hotkeyPressed hotkeyIndex st =
     (if hotkeyIndex < 0 \<or> nat hotkeyIndex > length (hotkeys st) then (None, st)
      else (Some (nat hotkeyIndex), st))"


section \<open>The notification icon (WindowEmperor.cpp, lines 923--972)\<close>

definition checkWindowsForNotificationIcon :: "WindowEmperor \<Rightarrow> WindowEmperor" where
  "checkWindowsForNotificationIcon st =
     (let needsIcon = foldl (\<lambda>acc w. acc \<or> IsQuakeWindow w) (RequestsTrayIcon (app st)) (windows st)
      in if notificationIconShown st = needsIcon then st
         else
           (let st1 = (if needsIcon
                       then os (Shell_NotifyIconW NIM_SETVERSION) (os (Shell_NotifyIconW NIM_ADD) st)
                       else os (Shell_NotifyIconW NIM_DELETE) st)
            in st1\<lparr>notificationIconShown := needsIcon\<rparr>))"


section \<open>The persistence sweep (WindowEmperor.cpp, lines 685--765)\<close>

type_synonym guid = "128 word"

text \<open>
  The arguments of a persisted action, as far as the sweep looks into them: new-tab and
  split-pane arguments whose content is a \<open>NewTerminalArgs\<close> carry a session id.
\<close>

datatype ContentArgs = NewTerminalArgs guid | OtherContentArgs

datatype ActionArgs = NewTabArgs ContentArgs | SplitPaneArgs ContentArgs | OtherActionArgs

fun terminalArgs :: "ActionArgs \<Rightarrow> guid option" where
  "terminalArgs (NewTabArgs (NewTerminalArgs sessionId)) = Some sessionId"
| "terminalArgs (SplitPaneArgs (NewTerminalArgs sessionId)) = Some sessionId"
| "terminalArgs _ = None"

text \<open>\<open>PersistedWindowLayouts()\<close> may be null; a layout is its \<open>TabLayout()\<close>.\<close>

definition collectSessionIds :: "ActionArgs list list option \<Rightarrow> guid set" where
  "collectSessionIds layouts =
     (case layouts of
        None \<Rightarrow> {}
      | Some ls \<Rightarrow> set (List.map_filter terminalArgs (concat ls)))"

text \<open>\<open>guidStr\<close>: an opening brace, the 36 characters from offset 7, a closing brace.\<close>

definition embeddedGuid :: "wstring \<Rightarrow> wstring" where
  "embeddedGuid name = [0x7B] @ take 36 (drop 7 name) @ [0x7D]"

text \<open>
  The \<open>do \<dots> while (FindNextFileW \<dots>)\<close> loop over the names that match \<open>buffer_*\<close>.
  \<open>Utils::GuidFromString\<close> and \<open>std::filesystem::remove\<close> are not part of these
  sources and are parameters: \<open>GuidFromString\<close> is \<open>None\<close> when the parser throws,
  \<open>fs_remove\<close> is \<open>False\<close> when the removal throws. Either exception leaves the
  function. The result is the list of names removed and how the loop ended.
\<close>

datatype sweep_exit = Completed | Aborted

fun sweepLoop ::
  "(wstring \<Rightarrow> guid option) \<Rightarrow> (wstring \<Rightarrow> bool) \<Rightarrow> guid set \<Rightarrow> wstring list \<Rightarrow> wstring list \<Rightarrow>
     wstring list \<times> sweep_exit" where
  "sweepLoop GuidFromString fs_remove sessionIds [] removed = (removed, Completed)"
| "sweepLoop GuidFromString fs_remove sessionIds (name # rest) removed =
     (if length name \<noteq> 47 then sweepLoop GuidFromString fs_remove sessionIds rest removed
      else case GuidFromString (embeddedGuid name) of
             None \<Rightarrow> (removed, Aborted)
           | Some sid \<Rightarrow>
               if sid \<notin> sessionIds
               then (if fs_remove name
                     then sweepLoop GuidFromString fs_remove sessionIds rest (removed @ [name])
                     else (removed, Aborted))
               else sweepLoop GuidFromString fs_remove sessionIds rest removed)"

definition finalizeSessionPersistence ::
  "bool \<Rightarrow> (wstring \<Rightarrow> guid option) \<Rightarrow> (wstring \<Rightarrow> bool) \<Rightarrow> ActionArgs list list option \<Rightarrow>
     wstring list \<Rightarrow> wstring list \<times> sweep_exit" where
  "finalizeSessionPersistence requiresPersistenceCleanupOnExit GuidFromString fs_remove layouts listing =
     (if \<not> requiresPersistenceCleanupOnExit then ([], Completed)
      else sweepLoop GuidFromString fs_remove (collectSessionIds layouts) listing [])"

text \<open>Whether the sweep has to remove a name: length 47 and a parsed identifier outside the set.\<close>

definition stale :: "(wstring \<Rightarrow> guid option) \<Rightarrow> guid set \<Rightarrow> wstring \<Rightarrow> bool" where
  "stale GuidFromString sessionIds name =
     (length name = 47 \<and>
      (case GuidFromString (embeddedGuid name) of None \<Rightarrow> False | Some sid \<Rightarrow> sid \<notin> sessionIds))"

text \<open>
  Whether the sweep ends at a name: length 47, and the identifier does not parse, or it
  parses to an identifier outside the set and the removal throws.
\<close>

definition aborts ::
  "(wstring \<Rightarrow> guid option) \<Rightarrow> (wstring \<Rightarrow> bool) \<Rightarrow> guid set \<Rightarrow> wstring \<Rightarrow> bool" where
  "aborts GuidFromString fs_remove sessionIds name =
     (length name = 47 \<and>
      (case GuidFromString (embeddedGuid name) of
         None \<Rightarrow> True
       | Some sid \<Rightarrow> sid \<notin> sessionIds \<and> \<not> fs_remove name))"

section \<open>The codec: round trip and truncation\<close>

lemma uint32_roundtrip: "uint32_of_bytes (bytes_of_uint32 v) = v"
  unfolding uint32_of_bytes_def bytes_of_uint32_def
  apply simp
  apply (rule bit_word_eqI)
  subgoal for n
    by (cases "n < 8"; cases "n < 16"; cases "n < 24") (auto simp add: bit_simps)
  done

lemma wchar_roundtrip: "wchars_of_bytes (bytes_of_wchar c @ bs) = c # wchars_of_bytes bs"
proof -
  have "(ucast (ucast c :: byte) OR push_bit 8 (ucast (ucast (drop_bit 8 c) :: byte))) = c"
    by (rule bit_word_eqI) (auto simp add: bit_simps)
  then show ?thesis by (simp add: bytes_of_wchar_def)
qed

lemma wstring_roundtrip: "wchars_of_bytes (concat (map bytes_of_wchar s)) = s"
  by (induction s) (simp_all add: wchar_roundtrip)

lemma length_wstring_bytes: "length (concat (map bytes_of_wchar s)) = 2 * length s"
  by (induction s) (simp_all add: bytes_of_wchar_def)

lemma length_bytes_of_uint32: "length (bytes_of_uint32 v) = 4"
  by (simp add: bytes_of_uint32_def)

lemma str_bytes: "unat (ucast (len :: u32) * sizeof_wchar_t) = 2 * unat len"
proof -
  have "unat len < 2 ^ 32" using unsigned_less [of len] by simp
  then show ?thesis
    by (simp add: sizeof_wchar_t_def unat_word_ariths unsigned_ucast_eq take_bit_nat_eq_self)
qed

lemma narrow_uint32_ok: "n < 2 ^ 32 \<Longrightarrow> narrow_uint32 n = Inr (word_of_nat n)"
  by (simp add: narrow_uint32_def unat_of_nat)


lemma deserializeUint32_at:
  "deserializeUint32 (pre @ bytes_of_uint32 v @ post) (length pre) = Inr (v, length pre + 4)"
  by (simp add: deserializeUint32_def sizeof_uint32_t_def load_bytes_def
      length_bytes_of_uint32 uint32_roundtrip)

lemma serializeString_ok:
  assumes "length s < 2 ^ 32"
  shows "serializeString out s =
           Inr (out @ bytes_of_uint32 (word_of_nat (length s)) @ concat (map bytes_of_wchar s))"
proof -
  have "unat (word_of_nat (length s) :: u32) = length s"
    using assms by (simp add: unat_of_nat)
  then show ?thesis
    using assms
    by (simp add: serializeString_def narrow_uint32_ok serializeUint32_def str_bytes
        length_wstring_bytes)
qed

lemma deserializeString_at:
  assumes "length s < 2 ^ 32"
  shows "deserializeString
           (pre @ bytes_of_uint32 (word_of_nat (length s)) @ concat (map bytes_of_wchar s) @ post)
           (length pre) = Inr (s, length pre + 4 + 2 * length s)"
proof -
  have len: "unat (word_of_nat (length s) :: u32) = length s"
    using assms by (simp add: unat_of_nat)
  let ?buf = "pre @ bytes_of_uint32 (word_of_nat (length s)) @ concat (map bytes_of_wchar s) @ post"
  have u: "deserializeUint32 ?buf (length pre) = Inr (word_of_nat (length s), length pre + 4)"
    by (rule deserializeUint32_at)
  have d: "drop (length pre + 4) ?buf = concat (map bytes_of_wchar s) @ post"
    by (simp add: length_bytes_of_uint32)
  have l: "load_bytes ?buf (length pre + 4) (2 * length s) = Some (concat (map bytes_of_wchar s))"
    unfolding load_bytes_def d
    by (simp add: length_bytes_of_uint32 length_wstring_bytes)
  show ?thesis
    unfolding deserializeString_def u
    by (simp add: str_bytes len l length_bytes_of_uint32 length_wstring_bytes wstring_roundtrip
        del: append_assoc)
qed


lemma serializeString_Inr:
  assumes "serializeString out str = Inr res"
  shows "length str < 2 ^ 32 \<and>
         res = out @ bytes_of_uint32 (word_of_nat (length str)) @ concat (map bytes_of_wchar str)"
proof -
  from assms have "unat (word_of_nat (length str) :: u32) = length str"
    by (auto simp: serializeString_def narrow_uint32_def split: if_splits sum.splits)
  moreover have "unat (word_of_nat (length str) :: u32) < 2 ^ 32"
    using unsigned_less [of "word_of_nat (length str) :: u32"] by simp
  ultimately have l: "length str < 2 ^ 32" by simp
  from serializeString_ok [OF l, of out] assms l show ?thesis by simp
qed

lemma decode_encoding:
  fixes a e c :: wstring and s :: u32
  assumes "length a < 2 ^ 32" "length e < 2 ^ 32" "length c < 2 ^ 32"
    and A: "A = bytes_of_uint32 (word_of_nat (length a)) @ concat (map bytes_of_wchar a)"
    and E: "E = bytes_of_uint32 (word_of_nat (length e)) @ concat (map bytes_of_wchar e)"
    and C: "C = bytes_of_uint32 (word_of_nat (length c)) @ concat (map bytes_of_wchar c)"
  shows "deserializeString (A @ E @ C @ bytes_of_uint32 s) 0 = Inr (a, length A)"
    and "deserializeString (A @ E @ C @ bytes_of_uint32 s) (length A) = Inr (e, length A + length E)"
    and "deserializeString (A @ E @ C @ bytes_of_uint32 s) (length A + length E) =
           Inr (c, length A + length E + length C)"
    and "deserializeUint32 (A @ E @ C @ bytes_of_uint32 s) (length A + length E + length C) =
           Inr (s, length A + length E + length C + 4)"
proof -
  show "deserializeString (A @ E @ C @ bytes_of_uint32 s) 0 = Inr (a, length A)"
    using deserializeString_at [OF assms(1), of "[]" "E @ C @ bytes_of_uint32 s"]
    by (simp add: A length_bytes_of_uint32 length_wstring_bytes)
  show "deserializeString (A @ E @ C @ bytes_of_uint32 s) (length A) = Inr (e, length A + length E)"
    using deserializeString_at [OF assms(2), of A "C @ bytes_of_uint32 s"]
    by (simp add: E length_bytes_of_uint32 length_wstring_bytes)
  show "deserializeString (A @ E @ C @ bytes_of_uint32 s) (length A + length E) =
          Inr (c, length A + length E + length C)"
    using deserializeString_at [OF assms(3), of "A @ E" "bytes_of_uint32 s"]
    by (simp add: C length_bytes_of_uint32 length_wstring_bytes)
  show "deserializeUint32 (A @ E @ C @ bytes_of_uint32 s) (length A + length E + length C) =
          Inr (s, length A + length E + length C + 4)"
    using deserializeUint32_at [of "A @ E @ C" s "[]"]
    by (simp add: add.assoc)
qed

lemma views_encoding:
  assumes "serializeString [] a = Inr out1" "serializeString out1 e = Inr out2"
    "serializeString out2 c = Inr out3"
    and A: "A = bytes_of_uint32 (word_of_nat (length a)) @ concat (map bytes_of_wchar a)"
    and E: "E = bytes_of_uint32 (word_of_nat (length e)) @ concat (map bytes_of_wchar e)"
    and C: "C = bytes_of_uint32 (word_of_nat (length c)) @ concat (map bytes_of_wchar c)"
  shows "length a < 2 ^ 32" "length e < 2 ^ 32" "length c < 2 ^ 32"
    "serializeUint32 out3 s = A @ E @ C @ bytes_of_uint32 s"
proof -
  from serializeString_Inr [OF assms(1)] have la: "length a < 2 ^ 32" and o1: "out1 = A"
    by (simp_all add: A)
  from serializeString_Inr [OF assms(2)] have le: "length e < 2 ^ 32" and o2: "out2 = A @ E"
    by (simp_all add: E o1)
  from serializeString_Inr [OF assms(3)] have lc: "length c < 2 ^ 32" and o3: "out3 = A @ E @ C"
    by (simp_all add: C o2)
  from la show "length a < 2 ^ 32" .
  from le show "length e < 2 ^ 32" .
  from lc show "length c < 2 ^ 32" .
  show "serializeUint32 out3 s = A @ E @ C @ bytes_of_uint32 s"
    by (simp add: serializeUint32_def o3)
qed

lemma roundtrip_views:
  fixes a e c :: wstring and s :: u32
  assumes "length a < 2 ^ 32" "length e < 2 ^ 32" "length c < 2 ^ 32"
  shows "\<exists>out1 out2 out3.
           serializeString [] a = Inr out1 \<and> serializeString out1 e = Inr out2 \<and>
           serializeString out2 c = Inr out3 \<and>
           deserializeHandoffPayload (serializeUint32 out3 s) =
             Inr \<lparr>args = a, env = e, cwd = c, showCmd = s\<rparr>"
proof -
  define A where "A = bytes_of_uint32 (word_of_nat (length a)) @ concat (map bytes_of_wchar a)"
  define E where "E = bytes_of_uint32 (word_of_nat (length e)) @ concat (map bytes_of_wchar e)"
  define C where "C = bytes_of_uint32 (word_of_nat (length c)) @ concat (map bytes_of_wchar c)"
  note d = decode_encoding [OF assms A_def E_def C_def, of s]
  have s1: "serializeString [] a = Inr A"
    using serializeString_ok [OF assms(1), of "[]"] by (simp add: A_def)
  have s2: "serializeString A e = Inr (A @ E)"
    using serializeString_ok [OF assms(2), of A] by (simp add: E_def)
  have s3: "serializeString (A @ E) c = Inr (A @ E @ C)"
    using serializeString_ok [OF assms(3), of "A @ E"] by (simp add: C_def)
  have "deserializeHandoffPayload (A @ E @ C @ bytes_of_uint32 s) =
          Inr \<lparr>args = a, env = e, cwd = c, showCmd = s\<rparr>"
    unfolding deserializeHandoffPayload_def by (simp add: d)
  then have "deserializeHandoffPayload (serializeUint32 (A @ E @ C) s) =
          Inr \<lparr>args = a, env = e, cwd = c, showCmd = s\<rparr>"
    by (simp add: serializeUint32_def)
  with s1 s2 s3 show ?thesis by blast
qed

lemma serializeHandoffPayload_Inr:
  assumes "serializeHandoffPayload commandLine envMem curDir nCmdShow = Inr bytes"
  shows "\<exists>a e out1 out2 out3.
           wstring_view_of commandLine = Some a \<and> stringFromDoubleNullTerminated envMem = Some e \<and>
           serializeString [] a = Inr out1 \<and> serializeString out1 e = Inr out2 \<and>
           serializeString out2 curDir = Inr out3 \<and>
           bytes = serializeUint32 out3 (word_of_int nCmdShow)"
  using assms unfolding serializeHandoffPayload_def
  by (auto split: option.splits sum.splits)

lemma takeWhile_terminated:
  "(0 :: wchar) \<notin> set a \<Longrightarrow> takeWhile (\<lambda>c. c \<noteq> 0) (a @ 0 # rest) = a"
  by (induction a) auto

lemma wstring_view_of_terminated:
  "0 \<notin> set a \<Longrightarrow> wstring_view_of (a @ 0 # rest) = Some a"
  by (simp add: wstring_view_of_def takeWhile_terminated)

lemma wcsnlen_terminated:
  "0 \<notin> set v \<Longrightarrow> wcsnlen (v @ 0 # rest) = Some (length v)"
  by (simp add: wcsnlen_def takeWhile_terminated)

lemma scanDoubleNull_block:
  assumes "\<forall>v \<in> set vars. v \<noteq> [] \<and> 0 \<notin> set v"
  shows "scanDoubleNull (pre @ concat (map (\<lambda>v. v @ [0]) vars) @ 0 # rest) (length pre) =
           Some (length pre + length (concat (map (\<lambda>v. v @ [0]) vars)))"
  using assms
proof (induction vars arbitrary: pre)
  case Nil
  show ?case by (subst scanDoubleNull.simps) simp
next
  case (Cons v vars)
  let ?tail = "concat (map (\<lambda>v. v @ [0]) vars) @ 0 # rest"
  from Cons.prems have v: "v \<noteq> []" "0 \<notin> set v" and vs: "\<forall>v \<in> set vars. v \<noteq> [] \<and> 0 \<notin> set v"
    by simp_all
  have mem: "pre @ concat (map (\<lambda>v. v @ [0]) (v # vars)) @ 0 # rest = pre @ v @ 0 # ?tail"
    by simp
  have hd: "(pre @ v @ 0 # ?tail) ! length pre \<noteq> 0"
    using v by (cases v) (auto simp: nth_append)
  have len: "wcsnlen (drop (length pre) (pre @ v @ 0 # ?tail)) = Some (length v)"
    using v by (simp add: wcsnlen_terminated)
  have "scanDoubleNull (pre @ v @ 0 # ?tail) (length pre) =
          scanDoubleNull (pre @ v @ 0 # ?tail) (length pre + length v + 1)"
    using hd len by (subst scanDoubleNull.simps) simp
  also have "pre @ v @ 0 # ?tail = (pre @ v @ [0]) @ ?tail" by simp
  also have "length pre + length v + 1 = length (pre @ v @ [0])" by simp
  also have "scanDoubleNull ((pre @ v @ [0]) @ ?tail) (length (pre @ v @ [0])) =
          Some (length (pre @ v @ [0]) + length (concat (map (\<lambda>v. v @ [0]) vars)))"
    using Cons.IH [OF vs, of "pre @ v @ [0]"] by simp
  finally show ?case unfolding mem by (simp add: add.assoc)
qed

lemma stringFromDoubleNullTerminated_block:
  assumes "\<forall>v \<in> set vars. v \<noteq> [] \<and> 0 \<notin> set v"
  shows "stringFromDoubleNullTerminated (concat (map (\<lambda>v. v @ [0]) vars) @ 0 # rest) =
           Some (concat (map (\<lambda>v. v @ [0]) vars))"
  using scanDoubleNull_block [OF assms, of "[]" rest]
  by (simp add: stringFromDoubleNullTerminated_def)

lemma encoder_roundtrip:
  assumes "wstring_view_of commandLine = Some a" "stringFromDoubleNullTerminated envMem = Some e"
    and "valid_payload \<lparr>args = a, env = e, cwd = curDir, showCmd = word_of_int nCmdShow\<rparr>"
  shows "\<exists>bytes.
           serializeHandoffPayload commandLine envMem curDir nCmdShow = Inr bytes \<and>
           deserializeHandoffPayload bytes =
             Inr \<lparr>args = a, env = e, cwd = curDir, showCmd = word_of_int nCmdShow\<rparr>"
proof -
  from assms(3) have "length a < 2 ^ 32" "length e < 2 ^ 32" "length curDir < 2 ^ 32"
    by (simp_all add: valid_payload_def)
  from roundtrip_views [OF this, of "word_of_int nCmdShow"] obtain out1 out2 out3 where
    "serializeString [] a = Inr out1" "serializeString out1 e = Inr out2"
    "serializeString out2 curDir = Inr out3"
    "deserializeHandoffPayload (serializeUint32 out3 (word_of_int nCmdShow)) =
       Inr \<lparr>args = a, env = e, cwd = curDir, showCmd = word_of_int nCmdShow\<rparr>"
    by blast
  with assms(1,2) show ?thesis
    by (simp add: serializeHandoffPayload_def)
qed

text \<open>
  Claim C1. For every valid payload (three strings whose lengths fit 32 bits, and a 32-bit
  show command), the four writes of the encoder on its fields give bytes that decode to
  the same four fields. Whenever \<open>serializeHandoffPayload\<close> has cut its command line and
  its environment block to strings that fit, it returns bytes that decode to exactly the
  strings it serialised, the current directory and the cast show command. It does so
  on every command line that ends in a NUL and every block of NUL-terminated, non-empty
  strings closed by one more NUL: there the strings serialised are the command line before
  its NUL and the block without the closing NUL.
\<close>

theorem handoff_roundtrip:
  "(valid_payload p \<longrightarrow>
      (\<exists>out1 out2 out3.
         serializeString [] (args p) = Inr out1 \<and> serializeString out1 (env p) = Inr out2 \<and>
         serializeString out2 (cwd p) = Inr out3 \<and>
         deserializeHandoffPayload (serializeUint32 out3 (showCmd p)) = Inr (p :: Handoff))) \<and>
   (wstring_view_of commandLine = Some a \<and> stringFromDoubleNullTerminated envMem = Some e \<and>
    valid_payload \<lparr>args = a, env = e, cwd = curDir, showCmd = word_of_int nCmdShow\<rparr> \<longrightarrow>
      (\<exists>bytes.
         serializeHandoffPayload commandLine envMem curDir nCmdShow = Inr bytes \<and>
         deserializeHandoffPayload bytes =
           Inr \<lparr>args = a, env = e, cwd = curDir, showCmd = word_of_int nCmdShow\<rparr>)) \<and>
   (0 \<notin> set line \<and> (\<forall>v \<in> set vars. v \<noteq> [] \<and> 0 \<notin> set v) \<and>
    valid_payload \<lparr>args = line, env = concat (map (\<lambda>v. v @ [0]) vars), cwd = curDir,
                   showCmd = word_of_int nCmdShow\<rparr> \<longrightarrow>
      (\<exists>bytes.
         serializeHandoffPayload (line @ 0 # rest1) (concat (map (\<lambda>v. v @ [0]) vars) @ 0 # rest2)
           curDir nCmdShow = Inr bytes \<and>
         deserializeHandoffPayload bytes =
           Inr \<lparr>args = line, env = concat (map (\<lambda>v. v @ [0]) vars), cwd = curDir,
                 showCmd = word_of_int nCmdShow\<rparr>))"
proof (intro conjI impI)
  assume "valid_payload p"
  then have "length (args p) < 2 ^ 32" "length (env p) < 2 ^ 32" "length (cwd p) < 2 ^ 32"
    by (simp_all add: valid_payload_def)
  from roundtrip_views [OF this, of "showCmd p"]
  show "\<exists>out1 out2 out3.
         serializeString [] (args p) = Inr out1 \<and> serializeString out1 (env p) = Inr out2 \<and>
         serializeString out2 (cwd p) = Inr out3 \<and>
         deserializeHandoffPayload (serializeUint32 out3 (showCmd p)) = Inr p"
    by (cases p) simp
next
  assume "wstring_view_of commandLine = Some a \<and> stringFromDoubleNullTerminated envMem = Some e \<and>
    valid_payload \<lparr>args = a, env = e, cwd = curDir, showCmd = word_of_int nCmdShow\<rparr>"
  then show "\<exists>bytes.
         serializeHandoffPayload commandLine envMem curDir nCmdShow = Inr bytes \<and>
         deserializeHandoffPayload bytes =
           Inr \<lparr>args = a, env = e, cwd = curDir, showCmd = word_of_int nCmdShow\<rparr>"
    using encoder_roundtrip by blast
next
  assume h: "0 \<notin> set line \<and> (\<forall>v \<in> set vars. v \<noteq> [] \<and> 0 \<notin> set v) \<and>
    valid_payload \<lparr>args = line, env = concat (map (\<lambda>v. v @ [0]) vars), cwd = curDir,
                   showCmd = word_of_int nCmdShow\<rparr>"
  then have 1: "wstring_view_of (line @ 0 # rest1) = Some line"
    by (simp add: wstring_view_of_terminated)
  from h have 2: "stringFromDoubleNullTerminated (concat (map (\<lambda>v. v @ [0]) vars) @ 0 # rest2) =
      Some (concat (map (\<lambda>v. v @ [0]) vars))"
    by (simp add: stringFromDoubleNullTerminated_block)
  from h have 3: "valid_payload \<lparr>args = line, env = concat (map (\<lambda>v. v @ [0]) vars), cwd = curDir,
                   showCmd = word_of_int nCmdShow\<rparr>"
    by simp
  from encoder_roundtrip [OF 1 2 3]
  show "\<exists>bytes.
         serializeHandoffPayload (line @ 0 # rest1) (concat (map (\<lambda>v. v @ [0]) vars) @ 0 # rest2)
           curDir nCmdShow = Inr bytes \<and>
         deserializeHandoffPayload bytes =
           Inr \<lparr>args = line, env = concat (map (\<lambda>v. v @ [0]) vars), cwd = curDir,
                 showCmd = word_of_int nCmdShow\<rparr>" .
qed

theorem handoff_roundtrip_witness:
  "serializeHandoffPayload [0x77, 0x74, 0] [0x41, 0x3D, 0x31, 0, 0] [0x43, 0x3A] 1 =
     Inr [2, 0, 0, 0, 0x77, 0, 0x74, 0, 4, 0, 0, 0, 0x41, 0, 0x3D, 0, 0x31, 0, 0, 0,
          2, 0, 0, 0, 0x43, 0, 0x3A, 0, 1, 0, 0, 0] \<and>
   deserializeHandoffPayload
     [2, 0, 0, 0, 0x77, 0, 0x74, 0, 4, 0, 0, 0, 0x41, 0, 0x3D, 0, 0x31, 0, 0, 0,
      2, 0, 0, 0, 0x43, 0, 0x3A, 0, 1, 0, 0, 0] =
     Inr \<lparr>args = [0x77, 0x74], env = [0x41, 0x3D, 0x31, 0], cwd = [0x43, 0x3A], showCmd = 1\<rparr>"
proof -
  have v: "wstring_view_of [0x77, 0x74, 0] = Some [0x77, 0x74]"
    by (simp add: wstring_view_of_def)
  have b: "stringFromDoubleNullTerminated [0x41, 0x3D, 0x31, 0, 0] = Some [0x41, 0x3D, 0x31, 0]"
    by (simp add: stringFromDoubleNullTerminated_def scanDoubleNull.simps wcsnlen_def)
  have p: "valid_payload \<lparr>args = [0x77, 0x74], env = [0x41, 0x3D, 0x31, 0], cwd = [0x43, 0x3A],
             showCmd = word_of_int 1\<rparr>"
    by (simp add: valid_payload_def)
  have e: "serializeHandoffPayload [0x77, 0x74, 0] [0x41, 0x3D, 0x31, 0, 0] [0x43, 0x3A] 1 =
     Inr [2, 0, 0, 0, 0x77, 0, 0x74, 0, 4, 0, 0, 0, 0x41, 0, 0x3D, 0, 0x31, 0, 0, 0,
          2, 0, 0, 0, 0x43, 0, 0x3A, 0, 1, 0, 0, 0]"
    by (simp add: serializeHandoffPayload_def v b serializeString_def narrow_uint32_def
        serializeUint32_def bytes_of_uint32_def bytes_of_wchar_def sizeof_wchar_t_def)
  from handoff_roundtrip [where commandLine = "[0x77, 0x74, 0]" and a = "[0x77, 0x74]"
      and envMem = "[0x41, 0x3D, 0x31, 0, 0]" and e = "[0x41, 0x3D, 0x31, 0]"
      and curDir = "[0x43, 0x3A]" and nCmdShow = 1] v b p e
  show ?thesis by simp
qed

lemma deserializeUint32_error:
  "deserializeUint32 buf it = Inl e \<Longrightarrow> e = out_of_range"
  by (auto simp: deserializeUint32_def load_bytes_def sizeof_uint32_t_def
      split: if_splits option.splits)

lemma deserializeString_error:
  "deserializeString buf it = Inl e \<Longrightarrow> e = out_of_range"
  by (auto simp: deserializeString_def load_bytes_def
      split: if_splits option.splits sum.splits dest: deserializeUint32_error)

lemma deserializeHandoffPayload_error:
  "deserializeHandoffPayload buf = Inl e \<Longrightarrow> e = out_of_range"
  unfolding deserializeHandoffPayload_def
  by (auto split: sum.splits)
     (blast dest: deserializeUint32_error deserializeString_error)+

lemma deserializeUint32_prefix:
  assumes "deserializeUint32 (take k buf) it = Inr (v, it')"
  shows "it' \<le> k \<and> it' \<le> length buf \<and> deserializeUint32 buf it = Inr (v, it')"
proof -
  from assms have b: "it + 4 \<le> k" "it + 4 \<le> length buf" and it': "it' = it + 4"
    by (auto simp: deserializeUint32_def sizeof_uint32_t_def split: if_splits option.splits)
  have "take 4 (drop it (take k buf)) = take 4 (drop it buf)"
    using b by (simp add: drop_take min_def)
  with assms b it' show ?thesis
    by (auto simp: deserializeUint32_def sizeof_uint32_t_def load_bytes_def
        split: if_splits)
qed

lemma deserializeString_prefix:
  assumes "deserializeString (take k buf) it = Inr (s, it')"
  shows "it' \<le> k \<and> it' \<le> length buf \<and> deserializeString buf it = Inr (s, it')"
proof -
  from assms obtain len it1 where
    u: "deserializeUint32 (take k buf) it = Inr (len, it1)"
    by (auto simp: deserializeString_def split: sum.splits)
  from deserializeUint32_prefix [OF u] have
    it1: "it1 \<le> k" "it1 \<le> length buf" and u': "deserializeUint32 buf it = Inr (len, it1)"
    by simp_all
  let ?n = "unat (ucast len * sizeof_wchar_t)"
  from assms u have n: "\<not> length (take k buf) - it1 < ?n" and it': "it' = it1 + ?n"
    by (auto simp: deserializeString_def split: if_splits option.splits)
  from n it1 have b: "it1 + ?n \<le> k" "it1 + ?n \<le> length buf"
    by (auto simp: min_def split: if_splits)
  have "take ?n (drop it1 (take k buf)) = take ?n (drop it1 buf)"
    using b by (simp add: drop_take min_def)
  with assms u u' b it' show ?thesis
    by (auto simp: deserializeString_def load_bytes_def split: if_splits)
qed


lemma deserializeHandoffPayload_prefix:
  assumes "deserializeHandoffPayload (take k buf) = Inr p"
  shows "\<exists>it1 it2 it3 it4.
           deserializeString buf 0 = Inr (args p, it1) \<and>
           deserializeString buf it1 = Inr (env p, it2) \<and>
           deserializeString buf it2 = Inr (cwd p, it3) \<and>
           deserializeUint32 buf it3 = Inr (showCmd p, it4) \<and> it4 \<le> k"
proof -
  from assms obtain a it1 e it2 c it3 s it4 where
    1: "deserializeString (take k buf) 0 = Inr (a, it1)" and
    2: "deserializeString (take k buf) it1 = Inr (e, it2)" and
    3: "deserializeString (take k buf) it2 = Inr (c, it3)" and
    4: "deserializeUint32 (take k buf) it3 = Inr (s, it4)" and
    p: "p = \<lparr>args = a, env = e, cwd = c, showCmd = s\<rparr>"
    unfolding deserializeHandoffPayload_def
    by (auto split: sum.splits)
  from deserializeString_prefix [OF 1] deserializeString_prefix [OF 2]
    deserializeString_prefix [OF 3] deserializeUint32_prefix [OF 4] p
  show ?thesis by auto
qed

lemma truncation_views:
  assumes "serializeString [] a = Inr out1" "serializeString out1 e = Inr out2"
    "serializeString out2 c = Inr out3"
    and "k < length (serializeUint32 out3 s)"
  shows "deserializeHandoffPayload (take k (serializeUint32 out3 s)) = Inl out_of_range"
proof -
  define A where "A = bytes_of_uint32 (word_of_nat (length a)) @ concat (map bytes_of_wchar a)"
  define E where "E = bytes_of_uint32 (word_of_nat (length e)) @ concat (map bytes_of_wchar e)"
  define C where "C = bytes_of_uint32 (word_of_nat (length c)) @ concat (map bytes_of_wchar c)"
  define bytes where "bytes = serializeUint32 out3 s"
  note v = views_encoding [OF assms(1-3) A_def E_def C_def]
  note d = decode_encoding [OF v(1-3) A_def E_def C_def, of s]
  have enc: "bytes = A @ E @ C @ bytes_of_uint32 s"
    by (simp add: bytes_def v(4))
  have len: "length bytes = length A + length E + length C + 4"
    by (simp add: enc length_bytes_of_uint32)
  have k: "k < length bytes" using assms(4) by (simp add: bytes_def)
  have "deserializeHandoffPayload (take k bytes) \<noteq> Inr q" for q
  proof
    assume "deserializeHandoffPayload (take k bytes) = Inr q"
    from deserializeHandoffPayload_prefix [OF this] obtain it1 it2 it3 it4 where
      s1: "deserializeString bytes 0 = Inr (args q, it1)" and
      s2: "deserializeString bytes it1 = Inr (env q, it2)" and
      s3: "deserializeString bytes it2 = Inr (cwd q, it3)" and
      s4: "deserializeUint32 bytes it3 = Inr (showCmd q, it4)" and k': "it4 \<le> k"
      by blast
    from s1 have i1: "it1 = length A" unfolding enc d by simp
    from s2 have i2: "it2 = length A + length E" unfolding enc i1 d by simp
    from s3 have i3: "it3 = length A + length E + length C" unfolding enc i2 d by simp
    from s4 have "it4 = length A + length E + length C + 4" unfolding enc i3 d by simp
    with k' len k show False by simp
  qed
  then obtain x where "deserializeHandoffPayload (take k bytes) = Inl x"
    by (cases "deserializeHandoffPayload (take k bytes)") auto
  with deserializeHandoffPayload_error [OF this] show ?thesis
    by (simp add: bytes_def)
qed

text \<open>
  Claim C2. Decoding a strict prefix of the encoding of a valid payload throws
  \<open>std::out_of_range\<close>, for the bytes the four writes give on the fields of the payload
  and for the bytes \<open>serializeHandoffPayload\<close> returns; every strict prefix is shorter
  than what the length prefixes and the trailing show command ask for. On no buffer at
  all does the decoder load a byte at or past the end of the buffer.
\<close>

theorem handoff_truncation:
  assumes "k < length bytes"
  shows "(valid_payload p \<and> serializeString [] (args p) = Inr out1 \<and>
          serializeString out1 (env p) = Inr out2 \<and> serializeString out2 (cwd p) = Inr out3 \<and>
          bytes = serializeUint32 out3 (showCmd p) \<longrightarrow>
            deserializeHandoffPayload (take k bytes) = Inl out_of_range) \<and>
         (serializeHandoffPayload commandLine envMem curDir nCmdShow = Inr bytes \<longrightarrow>
            deserializeHandoffPayload (take k bytes) = Inl out_of_range) \<and>
         (\<forall>buf. deserializeHandoffPayload buf \<noteq> Inl access_violation)"
proof (intro conjI impI allI)
  assume "valid_payload p \<and> serializeString [] (args p) = Inr out1 \<and>
          serializeString out1 (env p) = Inr out2 \<and> serializeString out2 (cwd p) = Inr out3 \<and>
          bytes = serializeUint32 out3 (showCmd p)"
  then have c: "serializeString [] (args p) = Inr out1" "serializeString out1 (env p) = Inr out2"
    "serializeString out2 (cwd p) = Inr out3" and b: "bytes = serializeUint32 out3 (showCmd p)"
    by simp_all
  from assms have "k < length (serializeUint32 out3 (showCmd p))" by (simp add: b)
  from truncation_views [OF c this]
  show "deserializeHandoffPayload (take k bytes) = Inl out_of_range" by (simp add: b)
next
  assume "serializeHandoffPayload commandLine envMem curDir nCmdShow = Inr bytes"
  from serializeHandoffPayload_Inr [OF this] obtain a e o1 o2 o3 where
    c: "serializeString [] a = Inr o1" "serializeString o1 e = Inr o2"
    "serializeString o2 curDir = Inr o3" and b: "bytes = serializeUint32 o3 (word_of_int nCmdShow)"
    by blast
  from assms have "k < length (serializeUint32 o3 (word_of_int nCmdShow))" by (simp add: b)
  from truncation_views [OF c this]
  show "deserializeHandoffPayload (take k bytes) = Inl out_of_range" by (simp add: b)
next
  fix buf
  show "deserializeHandoffPayload buf \<noteq> Inl access_violation"
    using deserializeHandoffPayload_error [of buf access_violation] by auto
qed

theorem handoff_truncation_witness:
  "serializeHandoffPayload [0x77, 0x74, 0] [0, 0] [0x43] 1 =
     Inr [2, 0, 0, 0, 0x77, 0, 0x74, 0, 0, 0, 0, 0, 1, 0, 0, 0, 0x43, 0, 1, 0, 0, 0] \<and>
   deserializeHandoffPayload
     (take 21 [2, 0, 0, 0, 0x77, 0, 0x74, 0, 0, 0, 0, 0, 1, 0, 0, 0, 0x43, 0, 1, 0, 0, 0]) =
     Inl out_of_range"
proof -
  have v: "wstring_view_of [0x77, 0x74, 0] = Some [0x77, 0x74]"
    by (simp add: wstring_view_of_def)
  have b: "stringFromDoubleNullTerminated [0, 0] = Some []"
    by (simp add: stringFromDoubleNullTerminated_def scanDoubleNull.simps)
  have e: "serializeHandoffPayload [0x77, 0x74, 0] [0, 0] [0x43] 1 =
     Inr [2, 0, 0, 0, 0x77, 0, 0x74, 0, 0, 0, 0, 0, 1, 0, 0, 0, 0x43, 0, 1, 0, 0, 0]"
    by (simp add: serializeHandoffPayload_def v b serializeString_def narrow_uint32_def
        serializeUint32_def bytes_of_uint32_def bytes_of_wchar_def sizeof_wchar_t_def)
  have k: "21 < length [2, 0, 0, 0, 0x77, 0, 0x74, 0, 0, 0, 0, 0, 1, 0, 0, 0, 0x43, 0, 1, 0, 0, 0 :: byte]"
    by simp
  from handoff_truncation [OF k, of _ _ _ _ "[0x77, 0x74, 0]" "[0, 0]" "[0x43]" 1] e
  show ?thesis by simp
qed

section \<open>The retry loop returns\<close>

lemma sleeps_append: "sleeps (xs @ ys) = sleeps xs @ sleeps ys"
  by (induction xs rule: sleeps.induct) simp_all

lemma send_timeouts_append: "send_timeouts (xs @ ys) = send_timeouts xs @ send_timeouts ys"
  by (induction xs rule: send_timeouts.induct) simp_all

lemma backoff_chain_schedule: "backoff_chain 50 backoff_schedule"
  by (simp add: backoff_schedule_def)

lemma sum_list_take_le: "sum_list (take m ns) \<le> sum_list (ns :: nat list)"
proof -
  have "sum_list ns = sum_list (take m ns) + sum_list (drop m ns)"
    by (metis append_take_drop_id sum_list_append)
  then show ?thesis by simp
qed

lemma backoff_schedule_total: "sum_list (map unat backoff_schedule) = 28941"
  by (simp add: backoff_schedule_def)

lemma backoff_prefix_total: "sum_list (map unat (take m backoff_schedule)) \<le> 28941"
  using sum_list_take_le [of m "map unat backoff_schedule"]
  by (simp add: backoff_schedule_total take_map)

lemma retryLoop_chain:
  "backoff_chain s sched \<Longrightarrow>
   \<exists>r tr' m. retryLoop world payload k s tr = Some (r, tr') \<and>
     sleeps tr' = sleeps tr @ take m sched \<and>
     set (send_timeouts tr') \<subseteq> set (send_timeouts tr) \<union> {10000}"
proof (induction sched arbitrary: s k tr)
  case Nil
  then show ?case
    by (subst retryLoop.simps) (auto intro: exI [of _ 0])
next
  case (Cons t ts)
  then have s: "s < 10000" "t = s" and ch: "backoff_chain (s + s div 2) ts" by simp_all
  note IH = Cons.IH [OF ch]
  show ?case
  proof (cases "mutexAcquired (world k)")
    case True
    then show ?thesis using s
      by (subst retryLoop.simps) (auto simp: sleeps_append send_timeouts_append intro: exI [of _ 0])
  next
    case noMutex: False
    show ?thesis
    proof (cases "windowFound (world k)")
      case False
      from IH [of k' "tr @ [CreateMutexW, FindWindowW, Sleep s]" for k']
      obtain r tr' m where
        "retryLoop world payload (Suc k) (s + s div 2) (tr @ [CreateMutexW, FindWindowW, Sleep s]) = Some (r, tr')"
        "sleeps tr' = sleeps (tr @ [CreateMutexW, FindWindowW, Sleep s]) @ take m ts"
        "set (send_timeouts tr') \<subseteq> set (send_timeouts (tr @ [CreateMutexW, FindWindowW, Sleep s])) \<union> {10000}"
        by blast
      then show ?thesis using s noMutex False
        by (subst retryLoop.simps)
           (auto simp: sleeps_append send_timeouts_append intro!: exI [of _ "Suc m"])
    next
      case found: True
      show ?thesis
      proof (cases payload)
        case (Inl e)
        then show ?thesis using s noMutex found
          by (subst retryLoop.simps)
             (auto simp: sleeps_append send_timeouts_append intro: exI [of _ 0])
      next
        case (Inr bytes)
        show ?thesis
        proof (cases "narrow_uint32 (length bytes)")
          case (Inl e)
          then show ?thesis using s noMutex found Inr
            by (subst retryLoop.simps)
               (auto simp: sleeps_append send_timeouts_append intro: exI [of _ 0])
        next
          case cb: (Inr cbData)
          show ?thesis
          proof (cases "sendSucceeded (world k)")
            case True
            then show ?thesis using s noMutex found Inr cb
              by (subst retryLoop.simps)
                 (auto simp: sleeps_append send_timeouts_append intro: exI [of _ 0])
          next
            case False
            from IH [of k' "tr @ [CreateMutexW, FindWindowW, SendMessageTimeoutW cbData 10000, Sleep s]" for k']
            obtain r tr' m where
              "retryLoop world payload (Suc k) (s + s div 2)
                 (tr @ [CreateMutexW, FindWindowW, SendMessageTimeoutW cbData 10000, Sleep s]) = Some (r, tr')"
              "sleeps tr' = sleeps (tr @ [CreateMutexW, FindWindowW, SendMessageTimeoutW cbData 10000, Sleep s]) @ take m ts"
              "set (send_timeouts tr') \<subseteq>
                 set (send_timeouts (tr @ [CreateMutexW, FindWindowW, SendMessageTimeoutW cbData 10000, Sleep s])) \<union> {10000}"
              by blast
            then show ?thesis using s noMutex found Inr cb False
              by (subst retryLoop.simps)
                 (auto simp: sleeps_append send_timeouts_append intro!: exI [of _ "Suc m"])
          qed
        qed
      qed
    qed
  qed
qed

text \<open>
  Claim C9. Whatever the operating system answers, the retry loop returns. The sleeps it
  made are an initial part of the list that starts at 50 ms and grows by
  \<open>sleep + sleep / 2\<close> in 32-bit arithmetic, whose successor of the last entry is no
  longer below the cap of 10000 ms; they add up to at most 28941 ms, below 30 seconds; and
  every \<open>SendMessageTimeoutW\<close> is given the timeout 10000 ms.
\<close>

theorem acquire_returns:
  "\<exists>r tr m. acquireMutexOrAttemptHandoff world payload = Some (r, tr) \<and>
     sleeps tr = take m backoff_schedule \<and>
     backoff_chain 50 backoff_schedule \<and>
     sum_list (map unat (sleeps tr)) \<le> 28941 \<and>
     set (send_timeouts tr) \<subseteq> {10000}"
proof -
  from retryLoop_chain [OF backoff_chain_schedule, of world payload 0 "[]"]
  obtain r tr m where
    "retryLoop world payload 0 50 [] = Some (r, tr)" "sleeps tr = take m backoff_schedule"
    "set (send_timeouts tr) \<subseteq> {10000}"
    by auto
  then show ?thesis
    using backoff_chain_schedule backoff_prefix_total [of m]
    by (auto simp: acquireMutexOrAttemptHandoff_def)
qed

theorem acquire_returns_witness:
  "\<exists>r tr m. acquireMutexOrAttemptHandoff
       (\<lambda>k. \<lparr>mutexAcquired = False, windowFound = True, sendSucceeded = False\<rparr>) (Inr [1, 2, 3]) =
       Some (r, tr) \<and>
     sleeps tr = take m backoff_schedule \<and>
     backoff_chain 50 backoff_schedule \<and>
     sum_list (map unat (sleeps tr)) \<le> 28941 \<and>
     set (send_timeouts tr) \<subseteq> {10000}"
  by (rule acquire_returns)

section \<open>The live-window counter\<close>

lemma os_simps [simp]:
  "calls (os c st) = calls st @ [c]"
  "windowThreadInstances (os c st) = windowThreadInstances st"
  "oldWindows (os c st) = oldWindows st"
  "windows (os c st) = windows st"
  "hotkeys (os c st) = hotkeys st"
  "app (os c st) = app st"
  "window (os c st) = window st"
  "quitting (os c st) = quitting st"
  "notificationIconShown (os c st) = notificationIconShown st"
  by (simp_all add: os_def)

lemma decrementWindowCount_fields:
  "windowThreadInstances (decrementWindowCount st) = windowThreadInstances st - 1"
  "oldWindows (decrementWindowCount st) = oldWindows st"
  "windows (decrementWindowCount st) = windows st"
  "calls (decrementWindowCount st) =
     calls st @ (if windowThreadInstances st = 1 \<and> (quitting st \<or> \<not> AllowHeadless (app st))
                 then [PostQuitMessage] else [])"
  by (simp_all add: decrementWindowCount_def close_def Let_def)

lemma removeWindow_fields:
  "windowThreadInstances (removeWindow i st) = windowThreadInstances st"
  "oldWindows (removeWindow i st) = oldWindows st"
  "calls (removeWindow i st) = calls st"
  "quitting (removeWindow i st) = quitting st"
  "app (removeWindow i st) = app st"
  by (simp_all add: removeWindow_def)

text \<open>
  Claim C4. A decrement posts one quit message exactly when the counter was 1 (so that it
  reaches 0) and a quit was requested or running headless is not allowed; with headless
  allowed and no quit requested it posts none, and a decrement from any other value posts
  none. The counter goes down by one in every case.
\<close>

theorem decrement_quit_signal:
  "calls (decrementWindowCount st) =
     calls st @ (if windowThreadInstances st = 1 \<and> (quitting st \<or> \<not> AllowHeadless (app st))
                 then [PostQuitMessage] else []) \<and>
   windowThreadInstances (decrementWindowCount st) = windowThreadInstances st - 1"
  by (simp add: decrementWindowCount_fields)

theorem decrement_quit_signal_witness:
  "calls (decrementWindowCount
      \<lparr>window = True,
        app = \<lparr>AllowHeadless = False, RequestsTrayIcon = False, GlobalHotkeys = []\<rparr>,
        windows = [], oldWindows = [], windowThreadInstances = 1, hotkeys = [],
        notificationIconShown = False, quitting = False, calls = []\<rparr>) = [PostQuitMessage] \<and>
   calls (decrementWindowCount
      \<lparr>window = True,
        app = \<lparr>AllowHeadless = True, RequestsTrayIcon = False, GlobalHotkeys = []\<rparr>,
        windows = [], oldWindows = [], windowThreadInstances = 1, hotkeys = [],
        notificationIconShown = False, quitting = False, calls = []\<rparr>) = [] \<and>
   calls (decrementWindowCount
      \<lparr>window = True,
        app = \<lparr>AllowHeadless = False, RequestsTrayIcon = False, GlobalHotkeys = []\<rparr>,
        windows = [], oldWindows = [], windowThreadInstances = 2, hotkeys = [],
        notificationIconShown = False, quitting = False, calls = []\<rparr>) = []"
  using decrement_quit_signal [of "\<lparr>window = True,
        app = \<lparr>AllowHeadless = False, RequestsTrayIcon = False, GlobalHotkeys = []\<rparr>,
        windows = [], oldWindows = [], windowThreadInstances = 1, hotkeys = [],
        notificationIconShown = False, quitting = False, calls = []\<rparr>"]
    decrement_quit_signal [of "\<lparr>window = True,
        app = \<lparr>AllowHeadless = True, RequestsTrayIcon = False, GlobalHotkeys = []\<rparr>,
        windows = [], oldWindows = [], windowThreadInstances = 1, hotkeys = [],
        notificationIconShown = False, quitting = False, calls = []\<rparr>"]
    decrement_quit_signal [of "\<lparr>window = True,
        app = \<lparr>AllowHeadless = False, RequestsTrayIcon = False, GlobalHotkeys = []\<rparr>,
        windows = [], oldWindows = [], windowThreadInstances = 2, hotkeys = [],
        notificationIconShown = False, quitting = False, calls = []\<rparr>"]
  by simp

text \<open>
  Claim C3, as stated, fails: on the refrigeration branch (not Windows 11, the pump and
  \<open>Refrigerate\<close> return) the guard \<open>decrementWindowCount.reset()\<close> runs the decrement
  before the window is parked. Here a counter of 2 is 1 after the window went to the fridge.
\<close>

theorem refrigeration_counter_counterexample:
  "snd (leaveWarm True False Returned Returned \<lparr>PeasantID = 1, IsQuakeWindow = False\<rparr>
      \<lparr>window = True,
        app = \<lparr>AllowHeadless = False, RequestsTrayIcon = False, GlobalHotkeys = []\<rparr>,
        windows = [], oldWindows = [], windowThreadInstances = 2, hotkeys = [],
        notificationIconShown = False, quitting = False, calls = []\<rparr>) = Continue \<and>
   oldWindows (fst (leaveWarm True False Returned Returned \<lparr>PeasantID = 1, IsQuakeWindow = False\<rparr>
      \<lparr>window = True,
        app = \<lparr>AllowHeadless = False, RequestsTrayIcon = False, GlobalHotkeys = []\<rparr>,
        windows = [], oldWindows = [], windowThreadInstances = 2, hotkeys = [],
        notificationIconShown = False, quitting = False, calls = []\<rparr>)) = [\<lparr>PeasantID = 1, IsQuakeWindow = False\<rparr>] \<and>
   windowThreadInstances (fst (leaveWarm True False Returned Returned \<lparr>PeasantID = 1, IsQuakeWindow = False\<rparr>
      \<lparr>window = True,
        app = \<lparr>AllowHeadless = False, RequestsTrayIcon = False, GlobalHotkeys = []\<rparr>,
        windows = [], oldWindows = [], windowThreadInstances = 2, hotkeys = [],
        notificationIconShown = False, quitting = False, calls = []\<rparr>)) \<noteq>
   windowThreadInstances
      \<lparr>window = True,
        app = \<lparr>AllowHeadless = False, RequestsTrayIcon = False, GlobalHotkeys = []\<rparr>,
        windows = [], oldWindows = [], windowThreadInstances = 2, hotkeys = [],
        notificationIconShown = False, quitting = False, calls = []\<rparr>"
  by (simp add: leaveWarm_def Let_def decrementWindowCount_fields removeWindow_fields)

text \<open>
  Claim C3, amended. Every pass of a window thread's warm loop that finds the emperor
  alive takes exactly one from the counter, on the refrigeration branch as on the
  teardown branch and on the two paths that leave by an exception; a pass that finds the
  emperor gone leaves the counter as it is.
\<close>

theorem leaveWarm_decrements:
  "windowThreadInstances (fst (leaveWarm alive IsWindows11 pump refrigerate w st)) =
     (if alive then windowThreadInstances st - 1 else windowThreadInstances st)"
  by (cases pump; cases refrigerate)
     (simp_all add: leaveWarm_def Let_def decrementWindowCount_fields removeWindow_fields)

theorem leaveWarm_decrements_witness:
  "windowThreadInstances (fst (leaveWarm True False Returned Returned \<lparr>PeasantID = 1, IsQuakeWindow = False\<rparr>
      \<lparr>window = True,
        app = \<lparr>AllowHeadless = False, RequestsTrayIcon = False, GlobalHotkeys = []\<rparr>,
        windows = [], oldWindows = [], windowThreadInstances = 2, hotkeys = [],
        notificationIconShown = False, quitting = False, calls = []\<rparr>)) = 1 \<and>
   windowThreadInstances (fst (leaveWarm True True Returned Returned \<lparr>PeasantID = 1, IsQuakeWindow = False\<rparr>
      \<lparr>window = True,
        app = \<lparr>AllowHeadless = False, RequestsTrayIcon = False, GlobalHotkeys = []\<rparr>,
        windows = [], oldWindows = [], windowThreadInstances = 2, hotkeys = [],
        notificationIconShown = False, quitting = False, calls = []\<rparr>)) = 1"
  using leaveWarm_decrements [of True False Returned Returned "\<lparr>PeasantID = 1, IsQuakeWindow = False\<rparr>"
      "\<lparr>window = True,
        app = \<lparr>AllowHeadless = False, RequestsTrayIcon = False, GlobalHotkeys = []\<rparr>,
        windows = [], oldWindows = [], windowThreadInstances = 2, hotkeys = [],
        notificationIconShown = False, quitting = False, calls = []\<rparr>"]
    leaveWarm_decrements [of True True Returned Returned "\<lparr>PeasantID = 1, IsQuakeWindow = False\<rparr>"
      "\<lparr>window = True,
        app = \<lparr>AllowHeadless = False, RequestsTrayIcon = False, GlobalHotkeys = []\<rparr>,
        windows = [], oldWindows = [], windowThreadInstances = 2, hotkeys = [],
        notificationIconShown = False, quitting = False, calls = []\<rparr>"]
  by simp

section \<open>Reheating refrigerated windows\<close>

lemma leaveWarm_refrigerated:
  "oldWindows (fst (leaveWarm True False Returned Returned w st)) = oldWindows st @ [w]"
  "snd (leaveWarm True False Returned Returned w st) = Continue"
  by (simp_all add: leaveWarm_def Let_def decrementWindowCount_fields removeWindow_fields)

lemma close_all_fridge:
  "oldWindows (fold (\<lambda>w s. fst (leaveWarm True False Returned Returned w s)) ws st) = oldWindows st @ ws"
  by (induction ws arbitrary: st) (simp_all add: leaveWarm_refrigerated)

lemma createNewWindowThread_reheat:
  "oldWindows st = fridge @ [w] \<Longrightarrow>
   createNewWindowThread request st = st\<lparr>oldWindows := fridge, calls := calls st @ [Microwave w request]\<rparr>"
  by (simp add: createNewWindowThread_def os_def)

lemma createNewWindowThread_spawn:
  "oldWindows st = [] \<Longrightarrow>
   createNewWindowThread request st = st\<lparr>calls := calls st @ [ThreadStart request]\<rparr>"
  by (simp add: createNewWindowThread_def os_def)

lemma requests_reheat:
  "length reqs \<le> length (oldWindows st) \<Longrightarrow>
   calls (fold createNewWindowThread reqs st) =
     calls st @ map (\<lambda>(w, r). Microwave w r) (zip (rev (oldWindows st)) reqs) \<and>
   oldWindows (fold createNewWindowThread reqs st) =
     take (length (oldWindows st) - length reqs) (oldWindows st)"
proof (induction reqs arbitrary: st)
  case Nil
  then show ?case by simp
next
  case (Cons r reqs)
  then obtain fridge w where old: "oldWindows st = fridge @ [w]"
    by (cases "oldWindows st" rule: rev_cases) auto
  let ?st = "st\<lparr>oldWindows := fridge, calls := calls st @ [Microwave w r]\<rparr>"
  have step: "createNewWindowThread r st = ?st"
    by (rule createNewWindowThread_reheat [OF old])
  have "length reqs \<le> length (oldWindows ?st)"
    using Cons.prems old by simp
  from Cons.IH [OF this] show ?case
    by (simp add: step old)
qed

text \<open>
  Claim C7. A request with a window in the fridge takes the back of the fridge, the window
  refrigerated last, reheats it and starts no thread; a request with an empty fridge starts
  one thread. So, when the fridge is empty, the windows \<open>ws\<close> are closed and refrigerated
  and as many requests follow, the requests reheat exactly these windows, the last closed
  first, and start no thread; the request after them starts one thread.
\<close>

theorem pool_reuse:
  assumes "oldWindows st = []" and "length requests = length ws"
  shows "(oldWindows s \<noteq> [] \<longrightarrow>
            createNewWindowThread r s =
              s\<lparr>oldWindows := butlast (oldWindows s),
                calls := calls s @ [Microwave (last (oldWindows s)) r]\<rparr>) \<and>
         (oldWindows s = [] \<longrightarrow>
            createNewWindowThread r s = s\<lparr>calls := calls s @ [ThreadStart r]\<rparr>) \<and>
         (let st1 = fold (\<lambda>w s. fst (leaveWarm True False Returned Returned w s)) ws st;
              st2 = fold createNewWindowThread requests st1
          in oldWindows st1 = ws \<and>
             calls st2 = calls st1 @ map (\<lambda>(w, r). Microwave w r) (zip (rev ws) requests) \<and>
             oldWindows st2 = [] \<and>
             calls (createNewWindowThread r st2) = calls st2 @ [ThreadStart r])"
proof -
  define st1 where "st1 = fold (\<lambda>w s. fst (leaveWarm True False Returned Returned w s)) ws st"
  define st2 where "st2 = fold createNewWindowThread requests st1"
  have old1: "oldWindows st1 = ws"
    using assms(1) by (simp add: st1_def close_all_fridge)
  have "length requests \<le> length (oldWindows st1)"
    using assms(2) old1 by simp
  from requests_reheat [OF this]
  have c2: "calls st2 = calls st1 @ map (\<lambda>(w, r). Microwave w r) (zip (rev ws) requests)"
    and old2: "oldWindows st2 = []"
    using assms(2) by (simp_all add: st2_def old1)
  have c3: "calls (createNewWindowThread r st2) = calls st2 @ [ThreadStart r]"
    by (simp add: createNewWindowThread_spawn [OF old2])
  have one: "oldWindows s \<noteq> [] \<longrightarrow>
            createNewWindowThread r s =
              s\<lparr>oldWindows := butlast (oldWindows s),
                calls := calls s @ [Microwave (last (oldWindows s)) r]\<rparr>"
    by (simp add: createNewWindowThread_def os_def)
  have two: "oldWindows s = [] \<longrightarrow>
            createNewWindowThread r s = s\<lparr>calls := calls s @ [ThreadStart r]\<rparr>"
    by (simp add: createNewWindowThread_def os_def)
  from one two old1 c2 old2 c3 show ?thesis
    unfolding Let_def st1_def [symmetric] st2_def [symmetric] by blast
qed

theorem pool_reuse_witness:
  "(let st1 = fold (\<lambda>w s. fst (leaveWarm True False Returned Returned w s))
                [\<lparr>PeasantID = 1, IsQuakeWindow = False\<rparr>, \<lparr>PeasantID = 2, IsQuakeWindow = True\<rparr>]
                \<lparr>window = True,
        app = \<lparr>AllowHeadless = False, RequestsTrayIcon = False, GlobalHotkeys = []\<rparr>,
        windows = [], oldWindows = [], windowThreadInstances = 2, hotkeys = [],
        notificationIconShown = False, quitting = False, calls = []\<rparr>;
        st2 = fold createNewWindowThread
                [\<lparr>Commandline = [], CurrentDirectory = [], ShowWindowCommand = 1, CurrentEnvironment = []\<rparr>,
                 \<lparr>Commandline = [], CurrentDirectory = [], ShowWindowCommand = 2, CurrentEnvironment = []\<rparr>] st1
    in oldWindows st1 = [\<lparr>PeasantID = 1, IsQuakeWindow = False\<rparr>, \<lparr>PeasantID = 2, IsQuakeWindow = True\<rparr>] \<and>
       calls st2 = calls st1 @
         [Microwave \<lparr>PeasantID = 2, IsQuakeWindow = True\<rparr>
            \<lparr>Commandline = [], CurrentDirectory = [], ShowWindowCommand = 1, CurrentEnvironment = []\<rparr>,
          Microwave \<lparr>PeasantID = 1, IsQuakeWindow = False\<rparr>
            \<lparr>Commandline = [], CurrentDirectory = [], ShowWindowCommand = 2, CurrentEnvironment = []\<rparr>] \<and>
       oldWindows st2 = [] \<and>
       calls (createNewWindowThread
                \<lparr>Commandline = [], CurrentDirectory = [], ShowWindowCommand = 3, CurrentEnvironment = []\<rparr> st2) =
         calls st2 @ [ThreadStart \<lparr>Commandline = [], CurrentDirectory = [], ShowWindowCommand = 3, CurrentEnvironment = []\<rparr>])"
proof -
  have h1: "oldWindows \<lparr>window = True,
        app = \<lparr>AllowHeadless = False, RequestsTrayIcon = False, GlobalHotkeys = []\<rparr>,
        windows = [], oldWindows = [], windowThreadInstances = 2, hotkeys = [],
        notificationIconShown = False, quitting = False, calls = []\<rparr> = []"
    by simp
  have h2: "length [\<lparr>Commandline = [], CurrentDirectory = [], ShowWindowCommand = 1, CurrentEnvironment = []\<rparr>,
                 \<lparr>Commandline = [], CurrentDirectory = [], ShowWindowCommand = 2, CurrentEnvironment = []\<rparr>] =
            length [\<lparr>PeasantID = 1, IsQuakeWindow = False\<rparr>, \<lparr>PeasantID = 2, IsQuakeWindow = True\<rparr>]"
    by simp
  from pool_reuse [OF h1 h2, of _ "\<lparr>Commandline = [], CurrentDirectory = [], ShowWindowCommand = 3, CurrentEnvironment = []\<rparr>"]
  show ?thesis by (simp add: Let_def)
qed

section \<open>Global hotkeys\<close>

lemma narrow_cast_int_exact: "n < 2 ^ 31 \<Longrightarrow> narrow_cast_int n = int n"
  unfolding narrow_cast_int_def
  by (simp add: signed_of_nat signed_take_bit_int_eq_self)

lemma unregisterLoop_calls:
  "unregisterLoop i count st = st\<lparr>calls := calls st @ map UnregisterHotKey [i..count - 1]\<rparr>"
proof (induction i count st rule: unregisterLoop.induct)
  case (1 i count st)
  show ?case
  proof (cases "i < count")
    case True
    then have "[i..count - 1] = i # [i + 1..count - 1]"
      by (simp add: upto_rec1)
    with True 1 show ?thesis
      by (subst unregisterLoop.simps) (simp add: os_def)
  next
    case False
    then show ?thesis by (subst unregisterLoop.simps) simp
  qed
qed


lemma registerLoop_calls:
  "length (hotkeys st) + length (summonEntries entries) \<le> 2 ^ 31 \<Longrightarrow>
   registerLoop entries st =
     st\<lparr>hotkeys := hotkeys st @ map snd (summonEntries entries),
        calls := calls st @
          map (\<lambda>(i, keyChord, summonArgs). RegisterHotKey (int i) keyChord)
            (enumerate (length (hotkeys st)) (summonEntries entries))\<rparr>"
proof (induction entries arbitrary: st)
  case Nil
  then show ?case by simp
next
  case (Cons entry entries)
  obtain keyChord cmd where entry: "entry = (keyChord, cmd)" by (cases entry)
  show ?case
  proof (cases "SummonArgs cmd")
    case None
    with Cons entry show ?thesis by simp
  next
    case (Some summonArgs)
    define st' where "st' = (os (RegisterHotKey (int (length (hotkeys st))) keyChord) st)
                 \<lparr>hotkeys := hotkeys st @ [summonArgs]\<rparr>"
    from Cons.prems entry Some have n: "length (hotkeys st) < 2 ^ 31"
      by simp
    have hk: "hotkeys st' = hotkeys st @ [summonArgs]" and
      cl: "calls st' = calls st @ [RegisterHotKey (int (length (hotkeys st))) keyChord]"
      by (simp_all add: st'_def)
    from Cons.prems entry Some have rest: "length (hotkeys st') + length (summonEntries entries) \<le> 2 ^ 31"
      by (simp add: hk)
    have step: "registerLoop (entry # entries) st = registerLoop entries st'"
      using entry Some n by (simp add: narrow_cast_int_exact Let_def st'_def)
    have "registerLoop entries st' =
            st'\<lparr>hotkeys := hotkeys st' @ map snd (summonEntries entries),
               calls := calls st' @
                 map (\<lambda>(i, keyChord, summonArgs). RegisterHotKey (int i) keyChord)
                   (enumerate (length (hotkeys st')) (summonEntries entries))\<rparr>"
      by (rule Cons.IH [OF rest])
    also have "\<dots> = st\<lparr>hotkeys := hotkeys st @ map snd (summonEntries (entry # entries)),
        calls := calls st @
          map (\<lambda>(i, keyChord, summonArgs). RegisterHotKey (int i) keyChord)
            (enumerate (length (hotkeys st)) (summonEntries (entry # entries)))\<rparr>"
      unfolding hk cl using entry Some by (simp add: st'_def os_def)
    finally show ?thesis using step by simp
  qed
qed

text \<open>
  Claim C5. When the message window exists, a resync of a table of \<open>N\<close> bindings first
  unregisters the indices 0 to \<open>N - 1\<close> in order, clears the table, then registers the
  entries of the hotkey map that carry summon arguments, in order, under the indices 0, 1,
  \<dots>; the table then holds exactly their summon arguments. The two bounds say that the
  sizes fit the \<open>int\<close> the indices are cast to.
\<close>

theorem setupGlobalHotkeys_resync:
  assumes "window st"
    and "length (hotkeys st) < 2 ^ 31"
    and "length (summonEntries (GlobalHotkeys (app st))) \<le> 2 ^ 31"
  shows "calls (setupGlobalHotkeys st) =
           calls st @ map UnregisterHotKey [0..int (length (hotkeys st)) - 1] @
             map (\<lambda>(i, keyChord, summonArgs). RegisterHotKey (int i) keyChord)
               (enumerate 0 (summonEntries (GlobalHotkeys (app st)))) \<and>
         hotkeys (setupGlobalHotkeys st) = map snd (summonEntries (GlobalHotkeys (app st)))"
proof -
  define st2 where "st2 = (unregisterLoop 0 (narrow_cast_int (length (hotkeys st))) st)\<lparr>hotkeys := []\<rparr>"
  have hk: "hotkeys st2 = []" and ap: "app st2 = app st"
    and cl: "calls st2 = calls st @ map UnregisterHotKey [0..int (length (hotkeys st)) - 1]"
    using assms(2) by (simp_all add: st2_def unregisterLoop_calls narrow_cast_int_exact)
  have "length (hotkeys st2) + length (summonEntries (GlobalHotkeys (app st2))) \<le> 2 ^ 31"
    using assms(3) by (simp add: hk ap)
  note r = registerLoop_calls [OF this]
  have "setupGlobalHotkeys st = registerLoop (GlobalHotkeys (app st2)) st2"
    using assms(1) by (simp add: setupGlobalHotkeys_def Let_def st2_def)
  then show ?thesis
    unfolding r by (simp add: hk ap cl)
qed

theorem setupGlobalHotkeys_resync_witness:
  "calls (setupGlobalHotkeys
      \<lparr>window = True,
        app = \<lparr>AllowHeadless = False, RequestsTrayIcon = False, GlobalHotkeys = [(\<lparr>Modifiers = 8, Vkey = 66\<rparr>, \<lparr>CommandName = [], SummonArgs = Some \<lparr>Name = [66], ToggleVisibility = True, DropdownDuration = 0\<rparr>\<rparr>), (\<lparr>Modifiers = 8, Vkey = 67\<rparr>, \<lparr>CommandName = [], SummonArgs = Some \<lparr>Name = [67], ToggleVisibility = True, DropdownDuration = 0\<rparr>\<rparr>)]\<rparr>,
        windows = [], oldWindows = [], windowThreadInstances = 1, hotkeys = [\<lparr>Name = [65], ToggleVisibility = True, DropdownDuration = 0\<rparr>],
        notificationIconShown = False, quitting = False, calls = []\<rparr>) =
     [UnregisterHotKey 0, RegisterHotKey 0 \<lparr>Modifiers = 8, Vkey = 66\<rparr>, RegisterHotKey 1 \<lparr>Modifiers = 8, Vkey = 67\<rparr>] \<and>
   hotkeys (setupGlobalHotkeys
      \<lparr>window = True,
        app = \<lparr>AllowHeadless = False, RequestsTrayIcon = False, GlobalHotkeys = [(\<lparr>Modifiers = 8, Vkey = 66\<rparr>, \<lparr>CommandName = [], SummonArgs = Some \<lparr>Name = [66], ToggleVisibility = True, DropdownDuration = 0\<rparr>\<rparr>), (\<lparr>Modifiers = 8, Vkey = 67\<rparr>, \<lparr>CommandName = [], SummonArgs = Some \<lparr>Name = [67], ToggleVisibility = True, DropdownDuration = 0\<rparr>\<rparr>)]\<rparr>,
        windows = [], oldWindows = [], windowThreadInstances = 1, hotkeys = [\<lparr>Name = [65], ToggleVisibility = True, DropdownDuration = 0\<rparr>],
        notificationIconShown = False, quitting = False, calls = []\<rparr>) =
     [\<lparr>Name = [66], ToggleVisibility = True, DropdownDuration = 0\<rparr>,
      \<lparr>Name = [67], ToggleVisibility = True, DropdownDuration = 0\<rparr>]"
proof -
  have h1: "window \<lparr>window = True,
        app = \<lparr>AllowHeadless = False, RequestsTrayIcon = False, GlobalHotkeys = [(\<lparr>Modifiers = 8, Vkey = 66\<rparr>, \<lparr>CommandName = [], SummonArgs = Some \<lparr>Name = [66], ToggleVisibility = True, DropdownDuration = 0\<rparr>\<rparr>), (\<lparr>Modifiers = 8, Vkey = 67\<rparr>, \<lparr>CommandName = [], SummonArgs = Some \<lparr>Name = [67], ToggleVisibility = True, DropdownDuration = 0\<rparr>\<rparr>)]\<rparr>,
        windows = [], oldWindows = [], windowThreadInstances = 1, hotkeys = [\<lparr>Name = [65], ToggleVisibility = True, DropdownDuration = 0\<rparr>],
        notificationIconShown = False, quitting = False, calls = []\<rparr>"
    by simp
  have h2: "length (hotkeys \<lparr>window = True,
        app = \<lparr>AllowHeadless = False, RequestsTrayIcon = False, GlobalHotkeys = [(\<lparr>Modifiers = 8, Vkey = 66\<rparr>, \<lparr>CommandName = [], SummonArgs = Some \<lparr>Name = [66], ToggleVisibility = True, DropdownDuration = 0\<rparr>\<rparr>), (\<lparr>Modifiers = 8, Vkey = 67\<rparr>, \<lparr>CommandName = [], SummonArgs = Some \<lparr>Name = [67], ToggleVisibility = True, DropdownDuration = 0\<rparr>\<rparr>)]\<rparr>,
        windows = [], oldWindows = [], windowThreadInstances = 1, hotkeys = [\<lparr>Name = [65], ToggleVisibility = True, DropdownDuration = 0\<rparr>],
        notificationIconShown = False, quitting = False, calls = []\<rparr>) < 2 ^ 31"
    by simp
  have h3: "length (summonEntries (GlobalHotkeys (app \<lparr>window = True,
        app = \<lparr>AllowHeadless = False, RequestsTrayIcon = False, GlobalHotkeys = [(\<lparr>Modifiers = 8, Vkey = 66\<rparr>, \<lparr>CommandName = [], SummonArgs = Some \<lparr>Name = [66], ToggleVisibility = True, DropdownDuration = 0\<rparr>\<rparr>), (\<lparr>Modifiers = 8, Vkey = 67\<rparr>, \<lparr>CommandName = [], SummonArgs = Some \<lparr>Name = [67], ToggleVisibility = True, DropdownDuration = 0\<rparr>\<rparr>)]\<rparr>,
        windows = [], oldWindows = [], windowThreadInstances = 1, hotkeys = [\<lparr>Name = [65], ToggleVisibility = True, DropdownDuration = 0\<rparr>],
        notificationIconShown = False, quitting = False, calls = []\<rparr>))) \<le> 2 ^ 31"
    by simp
  from setupGlobalHotkeys_resync [OF h1 h2 h3]
  show ?thesis by (simp add: enumerate_eq_zip upto_rec1)
qed

section \<open>The notification icon\<close>

lemma foldl_or: "foldl (\<lambda>acc w. acc \<or> P w) b ws = (b \<or> (\<exists>w \<in> set ws. P w))"
  by (induction ws arbitrary: b) auto

text \<open>
  Claim C6. A recompute remembers as shown state the value of: the tray icon is
  requested by the settings, or some window of the list is a quake window. It calls
  \<open>Shell_NotifyIconW\<close> only when this value differs from the state remembered before
  (adding the icon, or deleting it), and a second recompute on its own result changes
  nothing and makes no call.
\<close>

theorem notification_icon_recompute:
  "notificationIconShown (checkWindowsForNotificationIcon st) =
     (RequestsTrayIcon (app st) \<or> (\<exists>w \<in> set (windows st). IsQuakeWindow w)) \<and>
   calls (checkWindowsForNotificationIcon st) =
     calls st @
       (if notificationIconShown st = (RequestsTrayIcon (app st) \<or> (\<exists>w \<in> set (windows st). IsQuakeWindow w))
        then []
        else if RequestsTrayIcon (app st) \<or> (\<exists>w \<in> set (windows st). IsQuakeWindow w)
        then [Shell_NotifyIconW NIM_ADD, Shell_NotifyIconW NIM_SETVERSION]
        else [Shell_NotifyIconW NIM_DELETE]) \<and>
   checkWindowsForNotificationIcon (checkWindowsForNotificationIcon st) =
     checkWindowsForNotificationIcon st"
  by (auto simp add: checkWindowsForNotificationIcon_def Let_def foldl_or)

theorem notification_icon_recompute_witness:
  "calls (checkWindowsForNotificationIcon
      \<lparr>window = True,
        app = \<lparr>AllowHeadless = False, RequestsTrayIcon = False, GlobalHotkeys = []\<rparr>,
        windows = [\<lparr>PeasantID = 1, IsQuakeWindow = False\<rparr>, \<lparr>PeasantID = 2, IsQuakeWindow = True\<rparr>], oldWindows = [], windowThreadInstances = 1, hotkeys = [],
        notificationIconShown = False, quitting = False, calls = []\<rparr>) =
     [Shell_NotifyIconW NIM_ADD, Shell_NotifyIconW NIM_SETVERSION] \<and>
   calls (checkWindowsForNotificationIcon (checkWindowsForNotificationIcon
      \<lparr>window = True,
        app = \<lparr>AllowHeadless = False, RequestsTrayIcon = False, GlobalHotkeys = []\<rparr>,
        windows = [\<lparr>PeasantID = 1, IsQuakeWindow = False\<rparr>, \<lparr>PeasantID = 2, IsQuakeWindow = True\<rparr>], oldWindows = [], windowThreadInstances = 1, hotkeys = [],
        notificationIconShown = False, quitting = False, calls = []\<rparr>)) =
     [Shell_NotifyIconW NIM_ADD, Shell_NotifyIconW NIM_SETVERSION]"
  using notification_icon_recompute [of "\<lparr>window = True,
        app = \<lparr>AllowHeadless = False, RequestsTrayIcon = False, GlobalHotkeys = []\<rparr>,
        windows = [\<lparr>PeasantID = 1, IsQuakeWindow = False\<rparr>, \<lparr>PeasantID = 2, IsQuakeWindow = True\<rparr>], oldWindows = [], windowThreadInstances = 1, hotkeys = [],
        notificationIconShown = False, quitting = False, calls = []\<rparr>"]
  by simp

section \<open>The persistence sweep\<close>

lemma sweepLoop_takeWhile:
  "sweepLoop GuidFromString fs_remove sessionIds listing removed =
     (removed @ filter (stale GuidFromString sessionIds)
                  (takeWhile (\<lambda>name. \<not> aborts GuidFromString fs_remove sessionIds name) listing),
      if \<exists>name \<in> set listing. aborts GuidFromString fs_remove sessionIds name
      then Aborted else Completed)"
proof (induction listing arbitrary: removed)
  case Nil
  then show ?case by simp
next
  case (Cons name rest)
  show ?case
  proof (cases "length name = 47")
    case False
    with Cons show ?thesis by (simp add: stale_def aborts_def)
  next
    case True
    show ?thesis
    proof (cases "GuidFromString (embeddedGuid name)")
      case None
      with True show ?thesis by (simp add: stale_def aborts_def)
    next
      case (Some sid)
      with True Cons show ?thesis by (simp add: stale_def aborts_def)
    qed
  qed
qed

lemma take_drop_nth:
  "m + n \<le> length xs \<Longrightarrow> take n (drop m xs) = map ((!) xs) [m..<m + n]"
  by (auto simp: list_eq_iff_nth_eq)

lemma embeddedGuid_positions:
  assumes "length name = 47"
  shows "embeddedGuid name = [0x7B] @ map ((!) name) [7..<43] @ [0x7D]"
proof -
  have "7 + 36 \<le> length name" using assms by simp
  from take_drop_nth [OF this]
  have "take 36 (drop 7 name) = map ((!) name) [7..<7 + 36]" .
  moreover have "(7::nat) + 36 = 43" by simp
  ultimately have "take 36 (drop 7 name) = map ((!) name) [7..<43]" by (simp only:)
  then show ?thesis by (simp only: embeddedGuid_def)
qed

lemma set_map_filter_iff:
  "y \<in> set (List.map_filter f xs) \<longleftrightarrow> (\<exists>x \<in> set xs. f x = Some y)"
  by (induction xs) (auto simp: map_filter_simps split: option.splits)

lemma collectSessionIds_iff:
  "sid \<in> collectSessionIds layouts \<longleftrightarrow>
     (\<exists>ls l. layouts = Some ls \<and> l \<in> set ls \<and>
        (NewTabArgs (NewTerminalArgs sid) \<in> set l \<or> SplitPaneArgs (NewTerminalArgs sid) \<in> set l))"
proof (cases layouts)
  case None
  then show ?thesis by (simp add: collectSessionIds_def)
next
  case (Some ls)
  have t: "terminalArgs a = Some sid \<longleftrightarrow>
             a = NewTabArgs (NewTerminalArgs sid) \<or> a = SplitPaneArgs (NewTerminalArgs sid)" for a
    by (cases a rule: terminalArgs.cases) auto
  have "sid \<in> collectSessionIds layouts \<longleftrightarrow> (\<exists>l \<in> set ls. \<exists>a \<in> set l. terminalArgs a = Some sid)"
    by (auto simp: Some collectSessionIds_def set_map_filter_iff)
  also have "\<dots> \<longleftrightarrow> (\<exists>l \<in> set ls.
      NewTabArgs (NewTerminalArgs sid) \<in> set l \<or> SplitPaneArgs (NewTerminalArgs sid) \<in> set l)"
    unfolding t by blast
  finally show ?thesis by (auto simp: Some)
qed

text \<open>
  Claim C8, as stated, fails: the sweep is one loop with no handler in it, so the first
  name of length 47 whose identifier is not a GUID ends it, and a stale file listed after
  it stays. Here nothing is persisted, the first listed file carries no GUID, and the
  second, \<open>buffer_0B2C3D4E-5F60-4718-8293-A4B5C6D7E8F9.txt\<close>, has length 47 and an identifier
  outside the (empty) set, and is not removed.
\<close>

theorem sweep_abort_counterexample:
  "length [98, 117, 102, 102, 101, 114, 95, 48, 66, 50, 67, 51, 68, 52, 69, 45, 53, 70, 54, 48, 45, 52, 55, 49, 56, 45, 56, 50, 57, 51, 45, 65, 52, 66, 53, 67, 54, 68, 55, 69, 56, 70, 57, 46, 116, 120, 116] = 47 \<and>
   (map_of
      [([123, 70, 68, 52, 48, 68, 55, 52, 54, 45, 49, 54, 51, 69, 45, 52, 52, 52, 67, 45, 66, 57, 66, 50, 45, 54, 65, 51, 69, 65, 50, 66, 50, 54, 55, 50, 50, 125],
        0xFD40D746163E444CB9B26A3EA2B26722),
       ([123, 48, 66, 50, 67, 51, 68, 52, 69, 45, 53, 70, 54, 48, 45, 52, 55, 49, 56, 45, 56, 50, 57, 51, 45, 65, 52, 66, 53, 67, 54, 68, 55, 69, 56, 70, 57, 125],
        0x0B2C3D4E5F6047188293A4B5C6D7E8F9),
       ([123, 49, 49, 49, 49, 49, 49, 49, 49, 45, 50, 50, 50, 50, 45, 52, 51, 51, 51, 45, 56, 52, 52, 52, 45, 53, 53, 53, 53, 53, 53, 53, 53, 53, 53, 53, 53, 125],
        0x11111111222243338444555555555555)])
     (embeddedGuid [98, 117, 102, 102, 101, 114, 95, 48, 66, 50, 67, 51, 68, 52, 69, 45, 53, 70, 54, 48, 45, 52, 55, 49, 56, 45, 56, 50, 57, 51, 45, 65, 52, 66, 53, 67, 54, 68, 55, 69, 56, 70, 57, 46, 116, 120, 116]) = Some 0x0B2C3D4E5F6047188293A4B5C6D7E8F9 \<and>
   0x0B2C3D4E5F6047188293A4B5C6D7E8F9 \<notin> collectSessionIds (Some []) \<and>
   finalizeSessionPersistence True
     (map_of
      [([123, 70, 68, 52, 48, 68, 55, 52, 54, 45, 49, 54, 51, 69, 45, 52, 52, 52, 67, 45, 66, 57, 66, 50, 45, 54, 65, 51, 69, 65, 50, 66, 50, 54, 55, 50, 50, 125],
        0xFD40D746163E444CB9B26A3EA2B26722),
       ([123, 48, 66, 50, 67, 51, 68, 52, 69, 45, 53, 70, 54, 48, 45, 52, 55, 49, 56, 45, 56, 50, 57, 51, 45, 65, 52, 66, 53, 67, 54, 68, 55, 69, 56, 70, 57, 125],
        0x0B2C3D4E5F6047188293A4B5C6D7E8F9),
       ([123, 49, 49, 49, 49, 49, 49, 49, 49, 45, 50, 50, 50, 50, 45, 52, 51, 51, 51, 45, 56, 52, 52, 52, 45, 53, 53, 53, 53, 53, 53, 53, 53, 53, 53, 53, 53, 125],
        0x11111111222243338444555555555555)])
     top (Some [])
     [[98, 117, 102, 102, 101, 114, 95, 110, 111, 116, 45, 97, 45, 115, 101, 115, 115, 105, 111, 110, 45, 105, 100, 101, 110, 116, 105, 102, 105, 101, 114, 45, 97, 116, 45, 97, 108, 108, 45, 48, 48, 48, 48, 46, 116, 120, 116],
      [98, 117, 102, 102, 101, 114, 95, 48, 66, 50, 67, 51, 68, 52, 69, 45, 53, 70, 54, 48, 45, 52, 55, 49, 56, 45, 56, 50, 57, 51, 45, 65, 52, 66, 53, 67, 54, 68, 55, 69, 56, 70, 57, 46, 116, 120, 116]] = ([], Aborted)"
  by (simp add: finalizeSessionPersistence_def embeddedGuid_def collectSessionIds_def
      List.map_filter_def)

text \<open>
  Claim C8, amended. The sweep visits the listed names in order and ends at the first
  name of length 47 whose identifier does not parse or whose due removal throws. Up to
  there it removes exactly the names of length 47 whose identifier, the characters at
  offsets 7 to 42 (the 8th to the 43rd character), parses to an id outside the set of
  persisted session ids; a name of another length and a name whose identifier is in the set
  are left alone, and so is every name from the one that ends the sweep on. When no listed
  name ends the sweep, exactly the stale names of the whole listing are removed. The set
  holds the session ids of the terminal arguments of the persisted new-tab and split-pane
  actions.
\<close>

theorem session_buffer_sweep:
  "finalizeSessionPersistence True GuidFromString fs_remove layouts listing =
     (filter (stale GuidFromString (collectSessionIds layouts))
        (takeWhile (\<lambda>name. \<not> aborts GuidFromString fs_remove (collectSessionIds layouts) name) listing),
      if \<exists>name \<in> set listing. aborts GuidFromString fs_remove (collectSessionIds layouts) name
      then Aborted else Completed) \<and>
   ((\<forall>name \<in> set listing. \<not> aborts GuidFromString fs_remove (collectSessionIds layouts) name) \<longrightarrow>
      finalizeSessionPersistence True GuidFromString fs_remove layouts listing =
        (filter (stale GuidFromString (collectSessionIds layouts)) listing, Completed)) \<and>
   (\<forall>name. stale GuidFromString (collectSessionIds layouts) name \<longleftrightarrow>
      length name = 47 \<and>
      (\<exists>sid. GuidFromString ([0x7B] @ map ((!) name) [7..<43] @ [0x7D]) = Some sid \<and>
             sid \<notin> collectSessionIds layouts)) \<and>
   (\<forall>name. aborts GuidFromString fs_remove (collectSessionIds layouts) name \<longleftrightarrow>
      length name = 47 \<and>
      (GuidFromString ([0x7B] @ map ((!) name) [7..<43] @ [0x7D]) = None \<or>
       (\<exists>sid. GuidFromString ([0x7B] @ map ((!) name) [7..<43] @ [0x7D]) = Some sid \<and>
              sid \<notin> collectSessionIds layouts \<and> \<not> fs_remove name))) \<and>
   (\<forall>sid. sid \<in> collectSessionIds layouts \<longleftrightarrow>
      (\<exists>ls l. layouts = Some ls \<and> l \<in> set ls \<and>
         (NewTabArgs (NewTerminalArgs sid) \<in> set l \<or> SplitPaneArgs (NewTerminalArgs sid) \<in> set l)))"
proof -
  let ?ids = "collectSessionIds layouts"
  have run: "finalizeSessionPersistence True GuidFromString fs_remove layouts listing =
     (filter (stale GuidFromString ?ids)
        (takeWhile (\<lambda>name. \<not> aborts GuidFromString fs_remove ?ids name) listing),
      if \<exists>name \<in> set listing. aborts GuidFromString fs_remove ?ids name
      then Aborted else Completed)"
    using sweepLoop_takeWhile [of GuidFromString fs_remove ?ids listing "[]"]
    by (simp add: finalizeSessionPersistence_def)
  have all: "finalizeSessionPersistence True GuidFromString fs_remove layouts listing =
        (filter (stale GuidFromString ?ids) listing, Completed)"
    if "\<forall>name \<in> set listing. \<not> aborts GuidFromString fs_remove ?ids name"
  proof -
    from that have "takeWhile (\<lambda>name. \<not> aborts GuidFromString fs_remove ?ids name) listing = listing"
      by (simp add: takeWhile_eq_all_conv)
    with that run show ?thesis by simp
  qed
  have st: "stale GuidFromString ?ids name \<longleftrightarrow>
      length name = 47 \<and>
      (\<exists>sid. GuidFromString ([0x7B] @ map ((!) name) [7..<43] @ [0x7D]) = Some sid \<and> sid \<notin> ?ids)"
    for name
  proof (cases "length name = 47")
    case True
    from embeddedGuid_positions [OF this] True show ?thesis
      by (auto simp: stale_def split: option.splits)
  next
    case False
    then show ?thesis by (simp add: stale_def)
  qed
  have ab: "aborts GuidFromString fs_remove ?ids name \<longleftrightarrow>
      length name = 47 \<and>
      (GuidFromString ([0x7B] @ map ((!) name) [7..<43] @ [0x7D]) = None \<or>
       (\<exists>sid. GuidFromString ([0x7B] @ map ((!) name) [7..<43] @ [0x7D]) = Some sid \<and>
              sid \<notin> ?ids \<and> \<not> fs_remove name))"
    for name
  proof (cases "length name = 47")
    case True
    from embeddedGuid_positions [OF this] True show ?thesis
      by (auto simp: aborts_def split: option.splits)
  next
    case False
    then show ?thesis by (simp add: aborts_def)
  qed
  from run all st ab collectSessionIds_iff [of _ layouts] show ?thesis
    by (intro conjI impI allI) blast+
qed

theorem session_buffer_sweep_witness:
  "finalizeSessionPersistence True
     (map_of
      [([123, 70, 68, 52, 48, 68, 55, 52, 54, 45, 49, 54, 51, 69, 45, 52, 52, 52, 67, 45, 66, 57, 66, 50, 45, 54, 65, 51, 69, 65, 50, 66, 50, 54, 55, 50, 50, 125],
        0xFD40D746163E444CB9B26A3EA2B26722),
       ([123, 48, 66, 50, 67, 51, 68, 52, 69, 45, 53, 70, 54, 48, 45, 52, 55, 49, 56, 45, 56, 50, 57, 51, 45, 65, 52, 66, 53, 67, 54, 68, 55, 69, 56, 70, 57, 125],
        0x0B2C3D4E5F6047188293A4B5C6D7E8F9),
       ([123, 49, 49, 49, 49, 49, 49, 49, 49, 45, 50, 50, 50, 50, 45, 52, 51, 51, 51, 45, 56, 52, 52, 52, 45, 53, 53, 53, 53, 53, 53, 53, 53, 53, 53, 53, 53, 125],
        0x11111111222243338444555555555555)])
     top (Some [[NewTabArgs (NewTerminalArgs 0xFD40D746163E444CB9B26A3EA2B26722), OtherActionArgs]])
     [[98, 117, 102, 102, 101, 114, 95, 111, 108, 100, 46, 116, 120, 116],
      [98, 117, 102, 102, 101, 114, 95, 70, 68, 52, 48, 68, 55, 52, 54, 45, 49, 54, 51, 69, 45, 52, 52, 52, 67, 45, 66, 57, 66, 50, 45, 54, 65, 51, 69, 65, 50, 66, 50, 54, 55, 50, 50, 46, 116, 120, 116],
      [98, 117, 102, 102, 101, 114, 95, 48, 66, 50, 67, 51, 68, 52, 69, 45, 53, 70, 54, 48, 45, 52, 55, 49, 56, 45, 56, 50, 57, 51, 45, 65, 52, 66, 53, 67, 54, 68, 55, 69, 56, 70, 57, 46, 116, 120, 116],
      [98, 117, 102, 102, 101, 114, 95, 110, 111, 116, 45, 97, 45, 115, 101, 115, 115, 105, 111, 110, 45, 105, 100, 101, 110, 116, 105, 102, 105, 101, 114, 45, 97, 116, 45, 97, 108, 108, 45, 48, 48, 48, 48, 46, 116, 120, 116],
      [98, 117, 102, 102, 101, 114, 95, 49, 49, 49, 49, 49, 49, 49, 49, 45, 50, 50, 50, 50, 45, 52, 51, 51, 51, 45, 56, 52, 52, 52, 45, 53, 53, 53, 53, 53, 53, 53, 53, 53, 53, 53, 53, 46, 116, 120, 116]] =
   ([[98, 117, 102, 102, 101, 114, 95, 48, 66, 50, 67, 51, 68, 52, 69, 45, 53, 70, 54, 48, 45, 52, 55, 49, 56, 45, 56, 50, 57, 51, 45, 65, 52, 66, 53, 67, 54, 68, 55, 69, 56, 70, 57, 46, 116, 120, 116]], Aborted) \<and>
   finalizeSessionPersistence True
     (map_of
      [([123, 70, 68, 52, 48, 68, 55, 52, 54, 45, 49, 54, 51, 69, 45, 52, 52, 52, 67, 45, 66, 57, 66, 50, 45, 54, 65, 51, 69, 65, 50, 66, 50, 54, 55, 50, 50, 125],
        0xFD40D746163E444CB9B26A3EA2B26722),
       ([123, 48, 66, 50, 67, 51, 68, 52, 69, 45, 53, 70, 54, 48, 45, 52, 55, 49, 56, 45, 56, 50, 57, 51, 45, 65, 52, 66, 53, 67, 54, 68, 55, 69, 56, 70, 57, 125],
        0x0B2C3D4E5F6047188293A4B5C6D7E8F9),
       ([123, 49, 49, 49, 49, 49, 49, 49, 49, 45, 50, 50, 50, 50, 45, 52, 51, 51, 51, 45, 56, 52, 52, 52, 45, 53, 53, 53, 53, 53, 53, 53, 53, 53, 53, 53, 53, 125],
        0x11111111222243338444555555555555)])
     top (Some [[NewTabArgs (NewTerminalArgs 0xFD40D746163E444CB9B26A3EA2B26722), OtherActionArgs]])
     [[98, 117, 102, 102, 101, 114, 95, 111, 108, 100, 46, 116, 120, 116],
      [98, 117, 102, 102, 101, 114, 95, 70, 68, 52, 48, 68, 55, 52, 54, 45, 49, 54, 51, 69, 45, 52, 52, 52, 67, 45, 66, 57, 66, 50, 45, 54, 65, 51, 69, 65, 50, 66, 50, 54, 55, 50, 50, 46, 116, 120, 116],
      [98, 117, 102, 102, 101, 114, 95, 48, 66, 50, 67, 51, 68, 52, 69, 45, 53, 70, 54, 48, 45, 52, 55, 49, 56, 45, 56, 50, 57, 51, 45, 65, 52, 66, 53, 67, 54, 68, 55, 69, 56, 70, 57, 46, 116, 120, 116],
      [98, 117, 102, 102, 101, 114, 95, 49, 49, 49, 49, 49, 49, 49, 49, 45, 50, 50, 50, 50, 45, 52, 51, 51, 51, 45, 56, 52, 52, 52, 45, 53, 53, 53, 53, 53, 53, 53, 53, 53, 53, 53, 53, 46, 116, 120, 116]] =
   ([[98, 117, 102, 102, 101, 114, 95, 48, 66, 50, 67, 51, 68, 52, 69, 45, 53, 70, 54, 48, 45, 52, 55, 49, 56, 45, 56, 50, 57, 51, 45, 65, 52, 66, 53, 67, 54, 68, 55, 69, 56, 70, 57, 46, 116, 120, 116],
     [98, 117, 102, 102, 101, 114, 95, 49, 49, 49, 49, 49, 49, 49, 49, 45, 50, 50, 50, 50, 45, 52, 51, 51, 51, 45, 56, 52, 52, 52, 45, 53, 53, 53, 53, 53, 53, 53, 53, 53, 53, 53, 53, 46, 116, 120, 116]], Completed)"
  using session_buffer_sweep [of
     "(map_of
      [([123, 70, 68, 52, 48, 68, 55, 52, 54, 45, 49, 54, 51, 69, 45, 52, 52, 52, 67, 45, 66, 57, 66, 50, 45, 54, 65, 51, 69, 65, 50, 66, 50, 54, 55, 50, 50, 125],
        0xFD40D746163E444CB9B26A3EA2B26722),
       ([123, 48, 66, 50, 67, 51, 68, 52, 69, 45, 53, 70, 54, 48, 45, 52, 55, 49, 56, 45, 56, 50, 57, 51, 45, 65, 52, 66, 53, 67, 54, 68, 55, 69, 56, 70, 57, 125],
        0x0B2C3D4E5F6047188293A4B5C6D7E8F9),
       ([123, 49, 49, 49, 49, 49, 49, 49, 49, 45, 50, 50, 50, 50, 45, 52, 51, 51, 51, 45, 56, 52, 52, 52, 45, 53, 53, 53, 53, 53, 53, 53, 53, 53, 53, 53, 53, 125],
        0x11111111222243338444555555555555)])"
     top "(Some [[NewTabArgs (NewTerminalArgs 0xFD40D746163E444CB9B26A3EA2B26722), OtherActionArgs]])"
     "[[98, 117, 102, 102, 101, 114, 95, 111, 108, 100, 46, 116, 120, 116],
      [98, 117, 102, 102, 101, 114, 95, 70, 68, 52, 48, 68, 55, 52, 54, 45, 49, 54, 51, 69, 45, 52, 52, 52, 67, 45, 66, 57, 66, 50, 45, 54, 65, 51, 69, 65, 50, 66, 50, 54, 55, 50, 50, 46, 116, 120, 116],
      [98, 117, 102, 102, 101, 114, 95, 48, 66, 50, 67, 51, 68, 52, 69, 45, 53, 70, 54, 48, 45, 52, 55, 49, 56, 45, 56, 50, 57, 51, 45, 65, 52, 66, 53, 67, 54, 68, 55, 69, 56, 70, 57, 46, 116, 120, 116],
      [98, 117, 102, 102, 101, 114, 95, 110, 111, 116, 45, 97, 45, 115, 101, 115, 115, 105, 111, 110, 45, 105, 100, 101, 110, 116, 105, 102, 105, 101, 114, 45, 97, 116, 45, 97, 108, 108, 45, 48, 48, 48, 48, 46, 116, 120, 116],
      [98, 117, 102, 102, 101, 114, 95, 49, 49, 49, 49, 49, 49, 49, 49, 45, 50, 50, 50, 50, 45, 52, 51, 51, 51, 45, 56, 52, 52, 52, 45, 53, 53, 53, 53, 53, 53, 53, 53, 53, 53, 53, 53, 46, 116, 120, 116]]"]
    session_buffer_sweep [of
     "(map_of
      [([123, 70, 68, 52, 48, 68, 55, 52, 54, 45, 49, 54, 51, 69, 45, 52, 52, 52, 67, 45, 66, 57, 66, 50, 45, 54, 65, 51, 69, 65, 50, 66, 50, 54, 55, 50, 50, 125],
        0xFD40D746163E444CB9B26A3EA2B26722),
       ([123, 48, 66, 50, 67, 51, 68, 52, 69, 45, 53, 70, 54, 48, 45, 52, 55, 49, 56, 45, 56, 50, 57, 51, 45, 65, 52, 66, 53, 67, 54, 68, 55, 69, 56, 70, 57, 125],
        0x0B2C3D4E5F6047188293A4B5C6D7E8F9),
       ([123, 49, 49, 49, 49, 49, 49, 49, 49, 45, 50, 50, 50, 50, 45, 52, 51, 51, 51, 45, 56, 52, 52, 52, 45, 53, 53, 53, 53, 53, 53, 53, 53, 53, 53, 53, 53, 125],
        0x11111111222243338444555555555555)])"
     top "(Some [[NewTabArgs (NewTerminalArgs 0xFD40D746163E444CB9B26A3EA2B26722), OtherActionArgs]])"
     "[[98, 117, 102, 102, 101, 114, 95, 111, 108, 100, 46, 116, 120, 116],
      [98, 117, 102, 102, 101, 114, 95, 70, 68, 52, 48, 68, 55, 52, 54, 45, 49, 54, 51, 69, 45, 52, 52, 52, 67, 45, 66, 57, 66, 50, 45, 54, 65, 51, 69, 65, 50, 66, 50, 54, 55, 50, 50, 46, 116, 120, 116],
      [98, 117, 102, 102, 101, 114, 95, 48, 66, 50, 67, 51, 68, 52, 69, 45, 53, 70, 54, 48, 45, 52, 55, 49, 56, 45, 56, 50, 57, 51, 45, 65, 52, 66, 53, 67, 54, 68, 55, 69, 56, 70, 57, 46, 116, 120, 116],
      [98, 117, 102, 102, 101, 114, 95, 49, 49, 49, 49, 49, 49, 49, 49, 45, 50, 50, 50, 50, 45, 52, 51, 51, 51, 45, 56, 52, 52, 52, 45, 53, 53, 53, 53, 53, 53, 53, 53, 53, 53, 53, 53, 46, 116, 120, 116]]"]
  by (simp add: stale_def aborts_def embeddedGuid_def collectSessionIds_def List.map_filter_def)

section \<open>The hotkey handler\<close>

text \<open>
  Claim C10 does not hold of the code: the guard of \<open>_hotkeyPressed\<close> compares with
  \<open>>\<close>, so an index equal to the size of the table passes it. With one registered
  binding and the index 1 the handler does not return early: it accesses position 1 of a
  table of size 1.
\<close>

theorem hotkeyPressed_index_at_size:
  "fst (hotkeyPressed 1
      \<lparr>window = True,
        app = \<lparr>AllowHeadless = False, RequestsTrayIcon = False, GlobalHotkeys = []\<rparr>,
        windows = [], oldWindows = [], windowThreadInstances = 1, hotkeys = [\<lparr>Name = [65], ToggleVisibility = True, DropdownDuration = 0\<rparr>],
        notificationIconShown = False, quitting = False, calls = []\<rparr>) = Some 1 \<and>
   length (hotkeys
      \<lparr>window = True,
        app = \<lparr>AllowHeadless = False, RequestsTrayIcon = False, GlobalHotkeys = []\<rparr>,
        windows = [], oldWindows = [], windowThreadInstances = 1, hotkeys = [\<lparr>Name = [65], ToggleVisibility = True, DropdownDuration = 0\<rparr>],
        notificationIconShown = False, quitting = False, calls = []\<rparr>) = 1"
  by (simp add: hotkeyPressed_def)

end
